theory Spec2Isabelle
  imports Main
begin

section \<open>Python values used by main_gsheet.py\<close>

text \<open>
  A Python \<open>str\<close> is modelled as a \<open>string\<close> whose elements stand for code points; only the
  code points below 256 are representable. \<open>len\<close> and slicing count elements, as Python
  counts code points.
\<close>

definition py_whitespace :: "char list" where
  "py_whitespace =
     [CHR 0x09, CHR 0x0A, CHR 0x0B, CHR 0x0C, CHR 0x0D,
      CHR 0x1C, CHR 0x1D, CHR 0x1E, CHR 0x1F, CHR 0x20, CHR 0x85, CHR 0xA0]"

definition py_isspace :: "char \<Rightarrow> bool" where
  "py_isspace c = (c \<in> set py_whitespace)"

text \<open>\<open>str.strip()\<close>: drop the leading and the trailing whitespace.\<close>

definition py_strip :: "string \<Rightarrow> string" where
  "py_strip s = rev (dropWhile py_isspace (rev (dropWhile py_isspace s)))"

text \<open>
  \<open>str.lower()\<close> on the code points below 256: A-Z and the Latin-1 capitals
  (0xC0-0xDE without the multiplication sign 0xD7) map to the letter 32 places up.
\<close>

definition py_upper_chars :: "char list" where
  "py_upper_chars = ''ABCDEFGHIJKLMNOPQRSTUVWXYZ'' @
     [CHR 0xC0, CHR 0xC1, CHR 0xC2, CHR 0xC3, CHR 0xC4, CHR 0xC5, CHR 0xC6, CHR 0xC7,
      CHR 0xC8, CHR 0xC9, CHR 0xCA, CHR 0xCB, CHR 0xCC, CHR 0xCD, CHR 0xCE, CHR 0xCF,
      CHR 0xD0, CHR 0xD1, CHR 0xD2, CHR 0xD3, CHR 0xD4, CHR 0xD5, CHR 0xD6, CHR 0xD8,
      CHR 0xD9, CHR 0xDA, CHR 0xDB, CHR 0xDC, CHR 0xDD, CHR 0xDE]"

definition py_lower_chars :: "char list" where
  "py_lower_chars = ''abcdefghijklmnopqrstuvwxyz'' @
     [CHR 0xE0, CHR 0xE1, CHR 0xE2, CHR 0xE3, CHR 0xE4, CHR 0xE5, CHR 0xE6, CHR 0xE7,
      CHR 0xE8, CHR 0xE9, CHR 0xEA, CHR 0xEB, CHR 0xEC, CHR 0xED, CHR 0xEE, CHR 0xEF,
      CHR 0xF0, CHR 0xF1, CHR 0xF2, CHR 0xF3, CHR 0xF4, CHR 0xF5, CHR 0xF6, CHR 0xF8,
      CHR 0xF9, CHR 0xFA, CHR 0xFB, CHR 0xFC, CHR 0xFD, CHR 0xFE]"

definition py_lower_char :: "char \<Rightarrow> char" where
  "py_lower_char c =
     (case map_of (zip py_upper_chars py_lower_chars) c of None \<Rightarrow> c | Some l \<Rightarrow> l)"

definition py_lower :: "string \<Rightarrow> string" where
  "py_lower s = map py_lower_char s"

text \<open>
  A sheet row is the dict built by \<open>rows_with_index\<close>: column name to cell text. \<open>r.get(k)\<close>
  is \<open>r k\<close> (\<open>None\<close> when the key is absent), \<open>r.get(k, d)\<close> is \<open>dict_get r k d\<close>.
\<close>

type_synonym row = "string \<rightharpoonup> string"

definition dict_get :: "('k \<rightharpoonup> 'v) \<Rightarrow> 'k \<Rightarrow> 'v \<Rightarrow> 'v" where
  "dict_get d k dflt = (case d k of None \<Rightarrow> dflt | Some v \<Rightarrow> v)"

text \<open>Truthiness of an optional string: \<open>None\<close> and the empty string are falsy.\<close>

definition truthy :: "string option \<Rightarrow> bool" where
  "truthy v = (case v of None \<Rightarrow> False | Some s \<Rightarrow> s \<noteq> [])"

text \<open>\<open>a or b\<close> evaluates to \<open>a\<close> when \<open>a\<close> is truthy and to \<open>b\<close> otherwise.\<close>

definition py_or :: "string option \<Rightarrow> string option \<Rightarrow> string option" where
  "py_or a b = (if truthy a then a else b)"

section \<open>Row store adapter\<close>

text \<open>
  The worksheet is the grid of cell texts that \<open>ws.get_all_values()\<close> returns: a list of
  rows, row 1 first. The gspread calls are modelled on that grid and never fail.
\<close>

type_synonym worksheet = "string list list"

definition NEED_COLS :: "string list" where
  "NEED_COLS = [''text'', ''image_url'', ''alt_text'', ''link_attachment'', ''reply_control'',
                ''topic_tag'', ''location_id'', ''status'', ''posted_at'', ''error'']"

definition get_all_values :: "worksheet \<Rightarrow> string list list" where
  "get_all_values ws = ws"

text \<open>\<open>ws.update(values=[header], range_name="1:1")\<close>: write \<open>header\<close> into row 1 from column A.\<close>

definition ws_update_row1 :: "string list \<Rightarrow> worksheet \<Rightarrow> worksheet" where
  "ws_update_row1 header ws =
     (case ws of [] \<Rightarrow> [header] | r # rs \<Rightarrow> (header @ drop (length header) r) # rs)"

text \<open>One pass of the loop \<open>for col in NEED_COLS\<close> on the pair (header, changed).\<close>

definition ensure_col :: "string \<Rightarrow> string list \<times> bool \<Rightarrow> string list \<times> bool" where
  "ensure_col col hc = (if col \<notin> set (fst hc) then (fst hc @ [col], True) else hc)"

definition ensure_header :: "worksheet \<Rightarrow> string list \<times> worksheet" where
  "ensure_header ws =
     (let values = get_all_values ws
      in if values = [] then (NEED_COLS, ws_update_row1 NEED_COLS ws)
         else let hc = fold ensure_col NEED_COLS (hd values, False)
              in (fst hc, if snd hc then ws_update_row1 (fst hc) ws else ws))"

text \<open>The dict comprehension \<open>{h: (raw[idx] if idx<len(raw) else "") for idx,h in enumerate(header)}\<close>.\<close>

definition mk_row :: "string list \<Rightarrow> string list \<Rightarrow> row" where
  "mk_row header raw =
     fold (\<lambda>(idx, h) d. d(h \<mapsto> (if idx < length raw then raw ! idx else [])))
          (enumerate 0 header) Map.empty"

definition rows_with_index :: "worksheet \<Rightarrow> string list \<Rightarrow> (nat \<times> row) list" where
  "rows_with_index ws header =
     (let values = get_all_values ws
      in if length values \<le> 1 then []
         else map (\<lambda>(i, raw). (i, mk_row header raw)) (enumerate 2 (tl values)))"

section \<open>Row selector\<close>

fun first_unposted :: "(nat \<times> row) list \<Rightarrow> (nat \<times> row) option" where
  "first_unposted [] = None"
| "first_unposted ((i, r) # rows) =
     (if py_lower (py_strip (dict_get r ''status'' [])) \<noteq> ''posted''
         \<and> truthy (py_or (r ''text'') (r ''image_url''))
      then Some (i, r) else first_unposted rows)"

text \<open>
  The vocabulary of the row-selector properties: a row's status is "posted" after trimming and
  lowering, and a row is blank when its text and its image_url are both empty (an absent
  cell counts as empty).
\<close>

definition status_is_posted :: "row \<Rightarrow> bool" where
  "status_is_posted r = (py_lower (py_strip (dict_get r ''status'' [])) = ''posted'')"

definition blank_row :: "row \<Rightarrow> bool" where
  "blank_row r = (dict_get r ''text'' [] = [] \<and> dict_get r ''image_url'' [] = [])"

definition eligible :: "row \<Rightarrow> bool" where
  "eligible r = (\<not> status_is_posted r \<and> \<not> blank_row r)"

section \<open>Exceptions\<close>

text \<open>
  Every exception the program can meet is a value: \<open>Exception\<close> is the one raised by
  \<open>raise Exception(f"HTTP ...")\<close>, \<open>RequestException\<close> what \<open>requests.post\<close> raises (no
  connection, timeout), \<open>JSONDecodeError\<close> what \<open>resp.json()\<close> raises, \<open>GSpreadException\<close> a
  cell address gspread refuses. \<open>str_exn\<close> is \<open>str(e)\<close>.
\<close>

datatype exn =
    Exception string
  | RequestException string
  | JSONDecodeError string
  | ValueError string
  | KeyError string
  | GSpreadException string

fun str_exn :: "exn \<Rightarrow> string" where
  "str_exn (Exception m) = m"
| "str_exn (RequestException m) = m"
| "str_exn (JSONDecodeError m) = m"
| "str_exn (ValueError m) = m"
| "str_exn (KeyError k) = [CHR 0x27] @ k @ [CHR 0x27]"
| "str_exn (GSpreadException m) = m"

text \<open>\<open>str(n)\<close> of an integer, as the f-string of the HTTP error formats the status code.\<close>

definition digit_char :: "nat \<Rightarrow> char" where
  "digit_char d = ''0123456789'' ! d"

fun py_str_nat :: "nat \<Rightarrow> string" where
  "py_str_nat n = (if n < 10 then [digit_char n] else py_str_nat (n div 10) @ [digit_char (n mod 10)])"

declare py_str_nat.simps [simp del]

definition py_str_int :: "int \<Rightarrow> string" where
  "py_str_int i = (if i < 0 then ''-'' @ py_str_nat (nat (- i)) else py_str_nat (nat i))"

section \<open>Remote posting API\<close>

text \<open>
  A JSON object is read with \<open>.get\<close> only, so it is an association list of strings. A payload
  is the dict passed as \<open>json=payload\<close>, in insertion order.
\<close>

type_synonym json = "(string \<times> string) list"

datatype pval = PStr string | PBool bool

type_synonym payload = "(string \<times> pval) list"

text \<open>\<open>d[k] = v\<close> on an insertion-ordered dict.\<close>

fun dict_set :: "('k \<times> 'v) list \<Rightarrow> 'k \<Rightarrow> 'v \<Rightarrow> ('k \<times> 'v) list" where
  "dict_set [] k v = [(k, v)]"
| "dict_set ((k', v') # d) k v = (if k' = k then (k', v) # d else (k', v') # dict_set d k v)"

text \<open>
  What one \<open>requests.post\<close> does: it raises, or it returns a response with a status code, a
  body text and the outcome of \<open>resp.json()\<close> on that body.
\<close>

record response =
  status_code :: int
  resp_text :: string
  resp_json :: "exn + json"

datatype http_result = Raised exn | Reply response

text \<open>
  The two requests the program sends: POST \<open>/{user_id}/threads\<close> with a JSON payload, and POST
  \<open>/{user_id}/threads_publish\<close> with the parameter \<open>creation_id\<close>. Both carry the bearer token.
\<close>

datatype request =
    Post_threads string string payload
  | Post_threads_publish string string "string option"

text \<open>
  The network is any function from the number of requests sent so far to the outcome of the
  next one; the state threaded through the calls is the log of the requests sent.
\<close>

type_synonym network = "nat \<Rightarrow> http_result"

definition requests_post :: "network \<Rightarrow> request \<Rightarrow> request list \<Rightarrow> http_result \<times> request list" where
  "requests_post net rq log = (net (length log), log @ [rq])"

text \<open>The body that both decorated functions share after \<open>requests.post\<close>.\<close>

definition check_response :: "http_result \<Rightarrow> exn + json" where
  "check_response res =
     (case res of
        Raised e \<Rightarrow> Inl e
      | Reply resp \<Rightarrow>
          if status_code resp \<ge> 400
          then Inl (Exception (''HTTP '' @ py_str_int (status_code resp) @ '': '' @ resp_text resp))
          else resp_json resp)"

text \<open>One attempt of \<open>create_container\<close> and of \<open>publish_container\<close>: the undecorated bodies.\<close>

definition create_container_attempt ::
  "network \<Rightarrow> string \<Rightarrow> string \<Rightarrow> payload \<Rightarrow> request list \<Rightarrow> (exn + json) \<times> request list" where
  "create_container_attempt net user_id token payload log =
     (case requests_post net (Post_threads user_id token payload) log of
        (res, log') \<Rightarrow> (check_response res, log'))"

definition publish_container_attempt ::
  "network \<Rightarrow> string \<Rightarrow> string \<Rightarrow> string option \<Rightarrow> request list \<Rightarrow> (exn + json) \<times> request list" where
  "publish_container_attempt net user_id token creation_id log =
     (case requests_post net (Post_threads_publish user_id token creation_id) log of
        (res, log') \<Rightarrow> (check_response res, log'))"

text \<open>
  \<open>@retry(stop=stop_after_attempt(3), wait=wait_exponential_jitter(1, 4), reraise=True)\<close>:
  the call is repeated after any exception until it returns or the attempt number reaches the
  bound; then the last exception is raised again. The waits between attempts take time only.
\<close>

function retry :: "nat \<Rightarrow> nat \<Rightarrow> ('s \<Rightarrow> (exn + 'a) \<times> 's) \<Rightarrow> 's \<Rightarrow> (exn + 'a) \<times> 's" where
  "retry stop_after attempt_number f s =
     (case f s of
        (Inr v, s') \<Rightarrow> (Inr v, s')
      | (Inl e, s') \<Rightarrow>
          (if attempt_number \<ge> stop_after then (Inl e, s')
           else retry stop_after (Suc attempt_number) f s'))"
  by pat_completeness auto
termination
  by (relation "measure (\<lambda>(stop_after, attempt_number, f, s). stop_after - attempt_number)") auto

declare retry.simps [simp del]

definition create_container ::
  "network \<Rightarrow> string \<Rightarrow> string \<Rightarrow> payload \<Rightarrow> request list \<Rightarrow> (exn + json) \<times> request list" where
  "create_container net user_id token payload =
     retry 3 1 (create_container_attempt net user_id token payload)"

definition publish_container ::
  "network \<Rightarrow> string \<Rightarrow> string \<Rightarrow> string option \<Rightarrow> request list \<Rightarrow> (exn + json) \<times> request list" where
  "publish_container net user_id token creation_id =
     retry 3 1 (publish_container_attempt net user_id token creation_id)"

section \<open>Post submitter\<close>

text \<open>\<open>(v or "")\<close> for an optional string \<open>v\<close>.\<close>

definition or_empty :: "string option \<Rightarrow> string" where
  "or_empty v = (case v of None \<Rightarrow> [] | Some s \<Rightarrow> if s \<noteq> [] then s else [])"

text \<open>\<open>if row.get(k): payload[k] = row[k]\<close>.\<close>

definition copy_field :: "row \<Rightarrow> string \<Rightarrow> payload \<Rightarrow> payload" where
  "copy_field row k payload =
     (case row k of
        None \<Rightarrow> payload
      | Some v \<Rightarrow> if v \<noteq> [] then dict_set payload k (PStr v) else payload)"

text \<open>The dict that \<open>post_one\<close> returns, one field per key.\<close>

record post_result =
  res_status :: string
  res_container_id :: "string option"
  res_media_type :: string
  res_publish :: "json option"

definition image_payload :: "row \<Rightarrow> payload" where
  "image_payload row =
     (let text = py_strip (or_empty (row ''text''));
          image_url = py_strip (or_empty (row ''image_url''));
          payload = [(''media_type'', PStr ''IMAGE''), (''image_url'', PStr image_url),
                     (''text'', PStr text)];
          payload = copy_field row ''alt_text'' payload;
          payload = copy_field row ''reply_control'' payload;
          payload = copy_field row ''topic_tag'' payload;
          payload = copy_field row ''location_id'' payload
      in payload)"

definition text_payload :: "row \<Rightarrow> payload" where
  "text_payload row =
     (let text = py_strip (or_empty (row ''text''));
          payload = [(''media_type'', PStr ''TEXT''), (''text'', PStr text),
                     (''auto_publish_text'', PBool True)];
          payload = copy_field row ''link_attachment'' payload;
          payload = copy_field row ''reply_control'' payload;
          payload = copy_field row ''topic_tag'' payload;
          payload = copy_field row ''location_id'' payload
      in payload)"

definition post_one ::
  "network \<Rightarrow> string \<Rightarrow> string \<Rightarrow> row \<Rightarrow> request list \<Rightarrow> (exn + post_result) \<times> request list" where
  "post_one net user_id token row log =
     (let image_url = py_strip (or_empty (row ''image_url''))
      in if image_url \<noteq> [] then
           (case create_container net user_id token (image_payload row) log of
              (Inl e, log1) \<Rightarrow> (Inl e, log1)
            | (Inr data, log1) \<Rightarrow>
                (let cid = map_of data ''id''
                 in case publish_container net user_id token cid log1 of
                      (Inl e, log2) \<Rightarrow> (Inl e, log2)
                    | (Inr pub, log2) \<Rightarrow>
                        (Inr \<lparr>res_status = ''published'', res_container_id = cid,
                              res_media_type = ''IMAGE'', res_publish = Some pub\<rparr>, log2)))
         else
           (case create_container net user_id token (text_payload row) log of
              (Inl e, log1) \<Rightarrow> (Inl e, log1)
            | (Inr data, log1) \<Rightarrow>
                (Inr \<lparr>res_status = ''published'', res_container_id = map_of data ''id'',
                      res_media_type = ''TEXT'', res_publish = None\<rparr>, log1)))"

section \<open>Writing the result back\<close>

text \<open>
  Cells are addressed from 1. \<open>ws.update_cell(row, col, value)\<close> refuses an address below 1 and
  otherwise sets that cell, the grid growing by empty cells as far as needed; \<open>cell\<close> reads a
  cell, empty outside the stored grid.
\<close>

definition pad_to :: "nat \<Rightarrow> 'a \<Rightarrow> 'a list \<Rightarrow> 'a list" where
  "pad_to n x xs = xs @ replicate (n - length xs) x"

definition grid_set :: "nat \<Rightarrow> nat \<Rightarrow> string \<Rightarrow> worksheet \<Rightarrow> worksheet" where
  "grid_set r c v ws =
     (let ws1 = pad_to r [] ws;
          line = pad_to c [] (ws1 ! (r - 1))
      in ws1[r - 1 := line[c - 1 := v]])"

definition cell :: "worksheet \<Rightarrow> nat \<Rightarrow> nat \<Rightarrow> string" where
  "cell ws r c =
     (if 1 \<le> r \<and> r \<le> length ws \<and> 1 \<le> c \<and> c \<le> length (ws ! (r - 1))
      then ws ! (r - 1) ! (c - 1) else [])"

definition update_cell :: "nat \<Rightarrow> nat \<Rightarrow> string \<Rightarrow> worksheet \<Rightarrow> (exn + unit) \<times> worksheet" where
  "update_cell r c v ws =
     (if r < 1 \<or> c < 1 then (Inl (GSpreadException ''incorrect cell label''), ws)
      else (Inr (), grid_set r c v ws))"

text \<open>\<open>time.localtime()\<close> and \<open>time.strftime("%Y-%m-%d %H:%M:%S", ...)\<close>.\<close>

record struct_time =
  tm_year :: nat
  tm_mon :: nat
  tm_mday :: nat
  tm_hour :: nat
  tm_min :: nat
  tm_sec :: nat

definition pad2 :: "nat \<Rightarrow> string" where
  "pad2 n = (if n < 10 then ''0'' @ py_str_nat n else py_str_nat n)"

definition strftime :: "struct_time \<Rightarrow> string" where
  "strftime tm =
     py_str_nat (tm_year tm) @ ''-'' @ pad2 (tm_mon tm) @ ''-'' @ pad2 (tm_mday tm) @ '' '' @
     pad2 (tm_hour tm) @ '':'' @ pad2 (tm_min tm) @ '':'' @ pad2 (tm_sec tm)"

text \<open>\<open>col_idx = {h:i+1 for i,h in enumerate(header)}\<close>.\<close>

definition col_idx :: "string list \<Rightarrow> string \<rightharpoonup> nat" where
  "col_idx header = fold (\<lambda>(i, h) d. d(h \<mapsto> i + 1)) (enumerate 0 header) Map.empty"

text \<open>
  \<open>update_result\<close>, with the reading of the local clock as the argument \<open>tm\<close>. A column that
  the header lacks raises \<open>KeyError\<close> when its index is looked up, after the writes before it.
\<close>

definition update_result ::
  "worksheet \<Rightarrow> string list \<Rightarrow> nat \<Rightarrow> string \<Rightarrow> string \<Rightarrow> struct_time \<Rightarrow> (exn + unit) \<times> worksheet" where
  "update_result ws header row_idx status err tm =
     (let ts = strftime tm
      in case col_idx header ''status'' of
           None \<Rightarrow> (Inl (KeyError ''status''), ws)
         | Some c1 \<Rightarrow>
            (case update_cell row_idx c1 status ws of
               (Inl e, ws1) \<Rightarrow> (Inl e, ws1)
             | (Inr u, ws1) \<Rightarrow>
                (case col_idx header ''posted_at'' of
                   None \<Rightarrow> (Inl (KeyError ''posted_at''), ws1)
                 | Some c2 \<Rightarrow>
                    (case update_cell row_idx c2 (if status = ''posted'' then ts else []) ws1 of
                       (Inl e, ws2) \<Rightarrow> (Inl e, ws2)
                     | (Inr u, ws2) \<Rightarrow>
                        (case col_idx header ''error'' of
                           None \<Rightarrow> (Inl (KeyError ''error''), ws2)
                         | Some c3 \<Rightarrow>
                            update_cell row_idx c3
                              (if status = ''failed'' then take 3000 err else []) ws2)))))"

section \<open>One firing\<close>

text \<open>
  \<open>post_next_unposted\<close> on the pair of worksheet and request log. \<open>tm\<close> is the clock that the
  \<open>update_result\<close> of the \<open>try\<close> block reads, \<open>tm'\<close> the one the \<open>except\<close> block reads. The
  \<open>except\<close> block also catches what \<open>update_result\<close> raises in the \<open>try\<close> block; what it
  raises itself leaves the function. The printed JSON lines are not part of the model.
\<close>

definition on_exception ::
  "string list \<Rightarrow> nat \<Rightarrow> struct_time \<Rightarrow> exn \<Rightarrow> worksheet \<Rightarrow> request list
     \<Rightarrow> (exn + bool) \<times> worksheet \<times> request list" where
  "on_exception header row_idx tm' e ws log =
     (let err = str_exn e
      in case update_result ws header row_idx ''failed'' err tm' of
           (Inl e', ws') \<Rightarrow> (Inl e', ws', log)
         | (Inr u, ws') \<Rightarrow> (Inr False, ws', log))"

definition post_next_unposted ::
  "network \<Rightarrow> string \<Rightarrow> string \<Rightarrow> string list \<Rightarrow> struct_time \<Rightarrow> struct_time
     \<Rightarrow> worksheet \<Rightarrow> request list \<Rightarrow> (exn + bool) \<times> worksheet \<times> request list" where
  "post_next_unposted net user_id token header tm tm' ws log =
     (let rows = rows_with_index ws header
      in case first_unposted rows of
           None \<Rightarrow> (Inr False, ws, log)
         | Some (row_idx, row) \<Rightarrow>
            (case post_one net user_id token row log of
               (Inl e, log') \<Rightarrow> on_exception header row_idx tm' e ws log'
             | (Inr res, log') \<Rightarrow>
                (case update_result ws header row_idx ''posted'' [] tm of
                   (Inl e, ws') \<Rightarrow> on_exception header row_idx tm' e ws' log'
                 | (Inr u, ws') \<Rightarrow> (Inr True, ws', log'))))"

section \<open>Clock times\<close>

text \<open>
  Every \<open>datetime\<close> of the program carries the same zone \<open>TZ\<close>, so Python compares them and
  adds a \<open>timedelta\<close> on the wall clock of that zone. A \<open>datetime\<close> is the number of
  microseconds on that wall clock since midnight of day 0, a \<open>timedelta\<close> a number of
  microseconds, a date a day number. The bounds of Python's calendar are not modelled.
\<close>

type_synonym datetime = int
type_synonym timedelta = int

definition seconds :: "int \<Rightarrow> timedelta" where
  "seconds n = n * 1000000"

definition minutes :: "int \<Rightarrow> timedelta" where
  "minutes n = n * 60000000"

definition days :: "int \<Rightarrow> timedelta" where
  "days n = n * 86400000000"

definition date_of :: "datetime \<Rightarrow> int" where
  "date_of t = t div 86400000000"

text \<open>
  \<open>int(delta.total_seconds())\<close>: the float is exact to the microsecond for the spans that occur
  here, and \<open>int\<close> truncates towards zero.
\<close>

definition int_total_seconds :: "timedelta \<Rightarrow> int" where
  "int_total_seconds d = (if d \<ge> 0 then d div 1000000 else - ((- d) div 1000000))"

text \<open>\<open>datetime.time(hour=h, minute=m)\<close> refuses values outside 0..23 and 0..59.\<close>

record dtime =
  hour :: int
  minute :: int

definition mk_dtime :: "int \<Rightarrow> int \<Rightarrow> exn + dtime" where
  "mk_dtime h m =
     (if h < 0 \<or> h > 23 then Inl (ValueError ''hour must be in 0..23'')
      else if m < 0 \<or> m > 59 then Inl (ValueError ''minute must be in 0..59'')
      else Inr \<lparr>hour = h, minute = m\<rparr>)"

definition combine :: "int \<Rightarrow> dtime \<Rightarrow> datetime" where
  "combine d t = days d + seconds (hour t * 3600 + minute t * 60)"

text \<open>
  \<open>random.randint(a, b)\<close> returns some integer of \<open>[a, b]\<close>; \<open>u\<close> is the raw draw that decides
  which one, so every outcome is reached by some \<open>u\<close>. An empty range raises.
\<close>

definition randint :: "nat \<Rightarrow> int \<Rightarrow> int \<Rightarrow> exn + int" where
  "randint u a b =
     (if b < a then Inl (ValueError ''empty range for randint'')
      else Inr (a + int u mod (b - a + 1)))"

subsection \<open>Parsing\<close>

text \<open>\<open>s.split(sep)\<close> for a separator of one character.\<close>

fun py_split :: "char \<Rightarrow> string \<Rightarrow> string list" where
  "py_split sep [] = [[]]"
| "py_split sep (c # cs) =
     (if c = sep then [] # py_split sep cs
      else (case py_split sep cs of [] \<Rightarrow> [[c]] | p # ps \<Rightarrow> (c # p) # ps))"

text \<open>
  \<open>int(s)\<close> on a string: surrounding whitespace is dropped, then an optional sign and decimal
  digits, where single underscores may stand between digits. The texts of the errors are
  shortened.
\<close>

definition digit_val :: "char \<Rightarrow> nat option" where
  "digit_val c = map_of (zip ''0123456789'' [0, 1, 2, 3, 4, 5, 6, 7, 8, 9]) c"

fun py_int_digits :: "nat \<Rightarrow> string \<Rightarrow> nat option" where
  "py_int_digits acc [] = Some acc"
| "py_int_digits acc (c # cs) =
     (if c = CHR ''_''
      then (case cs of
              [] \<Rightarrow> None
            | d # ds \<Rightarrow> (case digit_val d of
                           None \<Rightarrow> None
                         | Some v \<Rightarrow> py_int_digits (acc * 10 + v) ds))
      else (case digit_val c of
              None \<Rightarrow> None
            | Some v \<Rightarrow> py_int_digits (acc * 10 + v) cs))"

definition py_int :: "string \<Rightarrow> exn + int" where
  "py_int s =
     (let t = py_strip s;
          neg = (t \<noteq> [] \<and> hd t = CHR ''-'');
          body = (if t \<noteq> [] \<and> (hd t = CHR ''-'' \<or> hd t = CHR ''+'') then tl t else t)
      in case body of
           [] \<Rightarrow> Inl (ValueError ''invalid literal for int()'')
         | d # ds \<Rightarrow>
            (case digit_val d of
               None \<Rightarrow> Inl (ValueError ''invalid literal for int()'')
             | Some v \<Rightarrow>
                (case py_int_digits v ds of
                   None \<Rightarrow> Inl (ValueError ''invalid literal for int()'')
                 | Some n \<Rightarrow> Inr (if neg then - int n else int n))))"

text \<open>
  \<open>h,m = map(int, s.split(":"))\<close>: the parts are converted one by one as they are unpacked,
  and anything but two parts is a \<open>ValueError\<close> too.
\<close>

definition unpack_two_ints :: "string list \<Rightarrow> exn + (int \<times> int)" where
  "unpack_two_ints parts =
     (case parts of
        [] \<Rightarrow> Inl (ValueError ''not enough values to unpack'')
      | a # rest \<Rightarrow>
         (case py_int a of
            Inl e \<Rightarrow> Inl e
          | Inr h \<Rightarrow>
             (case rest of
                [] \<Rightarrow> Inl (ValueError ''not enough values to unpack'')
              | b # rest' \<Rightarrow>
                 (case py_int b of
                    Inl e \<Rightarrow> Inl e
                  | Inr m \<Rightarrow>
                     (case rest' of
                        [] \<Rightarrow> Inr (h, m)
                      | c # rest'' \<Rightarrow>
                         (case py_int c of
                            Inl e \<Rightarrow> Inl e
                          | Inr x \<Rightarrow> Inl (ValueError ''too many values to unpack'')))))))"

definition parse_hhmm :: "string \<Rightarrow> exn + dtime" where
  "parse_hhmm s =
     (case unpack_two_ints (py_split CHR '':'' s) of
        Inl e \<Rightarrow> Inl e
      | Inr (h, m) \<Rightarrow> mk_dtime h m)"

definition parse_hhmm_ext :: "string \<Rightarrow> exn + (int \<times> dtime)" where
  "parse_hhmm_ext s =
     (case unpack_two_ints (py_split CHR '':'' s) of
        Inl e \<Rightarrow> Inl e
      | Inr (h, m) \<Rightarrow>
         (let extra_days = h div 24; h = h mod 24
          in case mk_dtime h m of Inl e \<Rightarrow> Inl e | Inr t \<Rightarrow> Inr (extra_days, t)))"

section \<open>Scheduling engine\<close>

text \<open>
  \<open>_next_random_in_window\<close>, with the reading \<open>now\<close> of \<open>datetime.now(TZ)\<close> and the raw draw
  \<open>u\<close> of \<open>random.randint\<close> as arguments.
\<close>

definition next_random_in_window :: "string \<Rightarrow> datetime \<Rightarrow> nat \<Rightarrow> exn + datetime" where
  "next_random_in_window window_str now u =
     (case py_split CHR ''-'' window_str of
        [start_s, end_s] \<Rightarrow>
         (case parse_hhmm start_s of
            Inl e \<Rightarrow> Inl e
          | Inr t_start \<Rightarrow>
             (case parse_hhmm end_s of
                Inl e \<Rightarrow> Inl e
              | Inr t_end \<Rightarrow>
                 (let today = date_of now;
                      start_dt = combine today t_start;
                      end_dt = combine today t_end;
                      (start_dt, end_dt) =
                        (if end_dt \<le> now \<or> end_dt \<le> start_dt
                         then (start_dt + days 1, end_dt + days 1) else (start_dt, end_dt));
                      win_start = max start_dt (now + seconds 5);
                      (start_dt, end_dt, win_start) =
                        (if end_dt - win_start \<le> seconds 5
                         then (start_dt + days 1, end_dt + days 1, start_dt + days 1)
                         else (start_dt, end_dt, win_start));
                      delta = end_dt - win_start;
                      rsec = int_total_seconds delta
                  in case randint u 0 (max 0 rsec) of
                       Inl e \<Rightarrow> Inl e
                     | Inr offs \<Rightarrow> Inr (win_start + seconds offs))))
      | _ \<Rightarrow> Inl (ValueError ''wrong number of values to unpack''))"

text \<open>\<open>_next_at_with_jitter\<close>; the caller passes the clock reading where the source takes \<open>ref=None\<close>.\<close>

definition next_at_with_jitter :: "string \<Rightarrow> int \<Rightarrow> datetime \<Rightarrow> nat \<Rightarrow> exn + datetime" where
  "next_at_with_jitter time_str jitter_min ref u =
     (case parse_hhmm_ext time_str of
        Inl e \<Rightarrow> Inl e
      | Inr (d, t) \<Rightarrow>
         (let base = combine (date_of ref) t + days d;
              start = base - minutes jitter_min;
              end = base + minutes jitter_min;
              (base, start, end) =
                (if ref > end
                 then (base + days 1, base + days 1 - minutes jitter_min,
                       base + days 1 + minutes jitter_min)
                 else (base, start, end));
              start = max start (ref + seconds 5);
              secs = max 60 (int_total_seconds (end - start))
          in case randint u 0 secs of
               Inl e \<Rightarrow> Inl e
             | Inr offs \<Rightarrow> Inr (start + seconds offs)))"

subsection \<open>The scheduler loops\<close>

text \<open>
  The loops never end, so their models run on a script: \<open>clock\<close> lists the successive readings
  of \<open>datetime.now(TZ)\<close> and \<open>draws\<close> the successive raw draws of \<open>random.randint\<close>. The inner
  loop \<open>while True: now = datetime.now(TZ); if now >= nxt: break; time.sleep(...)\<close> reads the
  clock until a reading reaches \<open>nxt\<close>; \<open>None\<close> says that the script ends before that.
  A firing (\<open>gs_open\<close>, \<open>ensure_header\<close>, \<open>post_next_unposted\<close>) works on the sheet and the
  network only and is recorded as the pair of the instant waited for and the reading at which
  the wait ended.
\<close>

fun wait_until :: "datetime \<Rightarrow> datetime list \<Rightarrow> (datetime \<times> datetime list) option" where
  "wait_until nxt [] = None"
| "wait_until nxt (now # clock) = (if now \<ge> nxt then Some (now, clock) else wait_until nxt clock)"

text \<open>
  \<open>run_daily_window\<close> for at most \<open>n\<close> rounds of the outer loop; the result lists the firings.
  The value assigned to \<open>nxt\<close> after the firing is bound as \<open>nxt'\<close>; the next round starts by
  assigning \<open>nxt\<close> again, as the source does.
\<close>

fun run_daily_window ::
  "nat \<Rightarrow> string \<Rightarrow> datetime list \<Rightarrow> nat list \<Rightarrow> (datetime \<times> datetime) list" where
  "run_daily_window 0 window_str clock draws = []"
| "run_daily_window (Suc n) window_str clock draws =
     (case (clock, draws) of
        (now # clock1, u # draws1) \<Rightarrow>
         (case next_random_in_window window_str now u of
            Inl e \<Rightarrow> []
          | Inr nxt \<Rightarrow>
             (case wait_until nxt clock1 of
                None \<Rightarrow> []
              | Some (fired_at, clock2) \<Rightarrow>
                 (case (clock2, draws1) of
                    (now2 # clock3, u2 # draws2) \<Rightarrow>
                     (case next_random_in_window window_str now2 u2 of
                        Inl e \<Rightarrow> [(nxt, fired_at)]
                      | Inr nxt2 \<Rightarrow>
                         (let nxt' = nxt2 + days 1
                          in (nxt, fired_at) # run_daily_window n window_str clock3 draws2))
                  | _ \<Rightarrow> [(nxt, fired_at)])))
      | _ \<Rightarrow> [])"

text \<open>
  \<open>schedule_map\<close> of \<open>run_daily_multi_at\<close> is a dict in insertion order.
  \<open>min(schedule_map.items(), key=lambda kv: kv[1])\<close> is the first item with the least value.
\<close>

fun min_item :: "(string \<times> datetime) list \<Rightarrow> (string \<times> datetime) option" where
  "min_item [] = None"
| "min_item (kv # kvs) =
     (case min_item kvs of
        None \<Rightarrow> Some kv
      | Some kv' \<Rightarrow> if snd kv' < snd kv then Some kv' else Some kv)"

text \<open>
  One round of the loop of \<open>run_daily_multi_at\<close>: the item fired, the map after the round and
  the rest of the clock script.
\<close>

definition daily_multi_at_round ::
  "int \<Rightarrow> nat \<Rightarrow> datetime list \<Rightarrow> (string \<times> datetime) list
     \<Rightarrow> (exn + ((string \<times> datetime) \<times> (string \<times> datetime) list \<times> datetime list)) option" where
  "daily_multi_at_round jitter_min u clock schedule_map =
     (case min_item schedule_map of
        None \<Rightarrow> Some (Inl (ValueError ''min() arg is an empty sequence''))
      | Some (next_t, next_at) \<Rightarrow>
         (case wait_until next_at clock of
            None \<Rightarrow> None
          | Some (now, clock') \<Rightarrow>
             (case next_at_with_jitter next_t jitter_min (next_at + days 1) u of
                Inl e \<Rightarrow> Some (Inl e)
              | Inr v \<Rightarrow> Some (Inr ((next_t, next_at), dict_set schedule_map next_t v, clock')))))"

section \<open>Vocabulary of the properties and example inputs\<close>

text \<open>The header that \<open>ensure_header\<close> finds: the first row of the sheet, or nothing on an empty sheet.\<close>

definition sheet_header :: "worksheet \<Rightarrow> string list" where
  "sheet_header ws = (case get_all_values ws of [] \<Rightarrow> [] | h # rest \<Rightarrow> h)"

definition ex_rows :: "(nat \<times> row) list" where
  "ex_rows = [(2, [''text'' \<mapsto> ''a'', ''status'' \<mapsto> '' Posted '']),
              (3, [''text'' \<mapsto> [], ''image_url'' \<mapsto> [], ''status'' \<mapsto> []]),
              (4, [''text'' \<mapsto> ''b'', ''status'' \<mapsto> ''failed'']),
              (5, [''image_url'' \<mapsto> ''http://img'', ''status'' \<mapsto> []])]"

definition ex_sheet :: worksheet where
  "ex_sheet = [[''id'', ''status'', ''text'', ''note''], [''7'', [], ''hello'', ''x'']]"

definition ex_full_sheet :: worksheet where
  "ex_full_sheet =
     [[''note'', ''error'', ''posted_at'', ''status'', ''location_id'', ''topic_tag'',
       ''reply_control'', ''link_attachment'', ''alt_text'', ''image_url'', ''text'']]"

text \<open>The outcome of the attempt that is sent as request number \<open>length log + i\<close>.\<close>

definition attempt_at :: "network \<Rightarrow> request list \<Rightarrow> nat \<Rightarrow> exn + json" where
  "attempt_at net log i = check_response (net (length log + i))"

text \<open>The request with number \<open>n\<close> is answered with the status \<open>code\<close>.\<close>

definition answers_status :: "network \<Rightarrow> nat \<Rightarrow> int \<Rightarrow> bool" where
  "answers_status net n code = (case net n of Raised e \<Rightarrow> False | Reply resp \<Rightarrow> status_code resp = code)"

text \<open>A field of the row as a payload entry: there exactly when the cell is present and not empty.\<close>

definition field_of :: "row \<Rightarrow> string \<Rightarrow> pval option" where
  "field_of row k = (case row k of None \<Rightarrow> None | Some v \<Rightarrow> if v = [] then None else Some (PStr v))"

text \<open>A network that accepts every request, one that always answers 500, and a clock reading.\<close>

definition ok_net :: network where
  "ok_net n = Reply \<lparr>status_code = 200, resp_text = ''ok'', resp_json = Inr [(''id'', ''c1'')]\<rparr>"

definition net_500 :: network where
  "net_500 n = Reply \<lparr>status_code = 500, resp_text = ''busy'',
                       resp_json = Inl (JSONDecodeError ''Expecting value'')\<rparr>"

definition ex_tm :: struct_time where
  "ex_tm = \<lparr>tm_year = 2024, tm_mon = 3, tm_mday = 9, tm_hour = 7, tm_min = 5, tm_sec = 0\<rparr>"

definition ex_alt_row :: row where
  "ex_alt_row = [''text'' \<mapsto> ''hi'', ''alt_text'' \<mapsto> ''pic'']"

definition ex_padded_url_row :: row where
  "ex_padded_url_row = [''text'' \<mapsto> ''x'', ''image_url'' \<mapsto> '' '']"

definition ex_image_row :: row where
  "ex_image_row = [''text'' \<mapsto> ''x'', ''image_url'' \<mapsto> ''http://img'', ''alt_text'' \<mapsto> ''pic'',
                   ''link_attachment'' \<mapsto> ''http://l'']"

definition ex_space_row :: row where
  "ex_space_row = [''text'' \<mapsto> ''  '', ''image_url'' \<mapsto> [], ''status'' \<mapsto> []]"

definition ex_post_sheet :: worksheet where
  "ex_post_sheet =
     [[''text'', ''image_url'', ''alt_text'', ''link_attachment'', ''reply_control'',
       ''topic_tag'', ''location_id'', ''status'', ''posted_at'', ''error''],
      [''hello'']]"

definition ex_image_sheet :: worksheet where
  "ex_image_sheet =
     [[''text'', ''image_url'', ''alt_text'', ''link_attachment'', ''reply_control'',
       ''topic_tag'', ''location_id'', ''status'', ''posted_at'', ''error''],
      [''x'', ''http://img'']]"

definition net_ok_then_500 :: network where
  "net_ok_then_500 n = (if n = 0 then ok_net n else net_500 n)"

text \<open>
  The target instant of the at-time-with-jitter policy: the day of \<open>ref\<close> at the time \<open>t\<close>,
  \<open>d\<close> days on, and one day later when \<open>ref\<close> is already past that instant plus the jitter.
\<close>

definition jitter_target :: "int \<Rightarrow> dtime \<Rightarrow> int \<Rightarrow> datetime \<Rightarrow> datetime" where
  "jitter_target d t jitter_min ref =
     (let base = combine (date_of ref) t + days d
      in if ref > base + minutes jitter_min then base + days 1 else base)"

definition ex_schedule_map :: "(string \<times> datetime) list" where
  "ex_schedule_map =
     [(''12:00'', seconds 43200), (''09:00'', seconds 32405), (''26:00'', days 1 + seconds 7200)]"

section \<open>Properties of the row selector\<close>

lemmas row_eval = dict_get_def truthy_def py_or_def or_empty_def py_strip_def py_isspace_def
  py_whitespace_def py_lower_def py_lower_char_def py_upper_chars_def py_lower_chars_def
  status_is_posted_def blank_row_def

lemma truthy_or_iff: "truthy (py_or (r ''text'') (r ''image_url'')) = (\<not> blank_row r)"
  by (auto simp: truthy_def py_or_def blank_row_def dict_get_def split: option.splits)

lemma first_unposted_Cons:
  "first_unposted ((i, r) # rows) = (if eligible r then Some (i, r) else first_unposted rows)"
  by (simp add: eligible_def status_is_posted_def truthy_or_iff)

lemma first_unposted_None:
  "first_unposted rows = None \<longleftrightarrow> (\<forall>(j, r') \<in> set rows. \<not> eligible r')"
proof (induction rows)
  case Nil
  show ?case by simp
next
  case (Cons p rows)
  obtain i r where p: "p = (i, r)" by (cases p)
  show ?case using Cons by (simp add: p first_unposted_Cons del: first_unposted.simps)
qed

lemma first_unposted_Some:
  "first_unposted rows = Some (i, r) \<Longrightarrow>
     eligible r \<and> (\<exists>k < length rows. rows ! k = (i, r) \<and> (\<forall>j < k. \<not> eligible (snd (rows ! j))))"
proof (induction rows)
  case Nil
  then show ?case by simp
next
  case (Cons p rows)
  obtain i0 r0 where p: "p = (i0, r0)" by (cases p)
  show ?case
  proof (cases "eligible r0")
    case True
    with Cons.prems have "(i, r) = (i0, r0)"
      by (simp add: p first_unposted_Cons del: first_unposted.simps)
    with True show ?thesis by (auto simp: p intro!: exI[of _ 0])
  next
    case False
    with Cons.prems have "first_unposted rows = Some (i, r)"
      by (simp add: p first_unposted_Cons del: first_unposted.simps)
    from Cons.IH[OF this] obtain k where e: "eligible r"
      and k: "k < length rows" "rows ! k = (i, r)" "\<forall>j < k. \<not> eligible (snd (rows ! j))"
      by blast
    have "\<forall>j < Suc k. \<not> eligible (snd ((p # rows) ! j))"
      using k(3) False by (auto simp: p nth_Cons split: nat.splits)
    with k e show ?thesis by (intro conjI exI[of _ "Suc k"]) auto
  qed
qed

lemma first_unposted_lowest:
  assumes "first_unposted rows = Some (i, r)" "sorted_wrt (<) (map fst rows)"
    "(j, r') \<in> set rows" "eligible r'"
  shows "i \<le> j"
proof -
  from first_unposted_Some[OF assms(1)] obtain k where k: "k < length rows" "rows ! k = (i, r)"
      "\<forall>j < k. \<not> eligible (snd (rows ! j))" by blast
  from assms(3) obtain m where m: "m < length rows" "rows ! m = (j, r')"
    by (auto simp: in_set_conv_nth)
  with k(3) assms(4) have "\<not> m < k" by force
  then have "k \<le> m" by simp
  show ?thesis
  proof (cases "k = m")
    case True
    with k m show ?thesis by simp
  next
    case False
    with \<open>k \<le> m\<close> have "k < m" by simp
    from sorted_wrt_nth_less[OF assms(2), of k m] this m(1)
    have "fst (rows ! k) < fst (rows ! m)" by simp
    with k m show ?thesis by simp
  qed
qed

text \<open>
  The rows that \<open>rows_with_index\<close> hands to the selector carry the sheet positions 2, 3, ...
  in ascending order.
\<close>

lemma rows_with_index_ascending: "sorted_wrt (<) (map fst (rows_with_index ws header))"
proof -
  have "map fst (map (\<lambda>(i, raw). (i, mk_row header raw)) (enumerate 2 xs)) = [2..<2 + length xs]"
    for xs :: "string list list"
    by (simp add: enumerate_eq_zip map_idI case_prod_unfold comp_def)
  then show ?thesis
    by (simp add: rows_with_index_def Let_def del: upt_Suc)
qed

text \<open>
  C1. Whatever the list of rows, \<open>first_unposted\<close> returns nothing exactly when every row is
  posted (status trimmed and lowered) or blank (text and image_url both empty). A row it
  returns is neither posted nor blank and is the first such row of the list: every row before
  it is posted or blank. Where the list carries ascending sheet positions, as every list built
  by \<open>rows_with_index\<close> does, the returned row has the lowest row index among the rows that
  are neither posted nor blank.
\<close>

theorem first_unposted_lowest_eligible:
  "(first_unposted rows = None \<longleftrightarrow> (\<forall>(j, r') \<in> set rows. status_is_posted r' \<or> blank_row r'))
   \<and> (\<forall>i r. first_unposted rows = Some (i, r) \<longrightarrow>
         \<not> status_is_posted r \<and> \<not> blank_row r
       \<and> (\<exists>k < length rows. rows ! k = (i, r)
             \<and> (\<forall>j < k. status_is_posted (snd (rows ! j)) \<or> blank_row (snd (rows ! j))))
       \<and> (sorted_wrt (<) (map fst rows) \<longrightarrow>
            (\<forall>(j, r') \<in> set rows. \<not> status_is_posted r' \<and> \<not> blank_row r' \<longrightarrow> i \<le> j)))"
proof (intro conjI allI impI)
  show "first_unposted rows = None \<longleftrightarrow> (\<forall>(j, r') \<in> set rows. status_is_posted r' \<or> blank_row r')"
    by (simp add: first_unposted_None eligible_def)
next
  fix i r assume a: "first_unposted rows = Some (i, r)"
  from first_unposted_Some[OF a] show "\<not> status_is_posted r" "\<not> blank_row r"
    by (simp_all add: eligible_def)
  from first_unposted_Some[OF a]
  show "\<exists>k < length rows. rows ! k = (i, r)
             \<and> (\<forall>j < k. status_is_posted (snd (rows ! j)) \<or> blank_row (snd (rows ! j)))"
    by (simp add: eligible_def)
  assume s: "sorted_wrt (<) (map fst rows)"
  show "\<forall>(j, r') \<in> set rows. \<not> status_is_posted r' \<and> \<not> blank_row r' \<longrightarrow> i \<le> j"
    using first_unposted_lowest[OF a s] by (auto simp: eligible_def)
qed

theorem first_unposted_lowest_eligible_witness:
  "first_unposted ex_rows = Some (4, [''text'' \<mapsto> ''b'', ''status'' \<mapsto> ''failed''])
   \<and> sorted_wrt (<) (map fst ex_rows)
   \<and> (5, [''image_url'' \<mapsto> ''http://img'', ''status'' \<mapsto> []]) \<in> set ex_rows
   \<and> \<not> status_is_posted [''image_url'' \<mapsto> ''http://img'', ''status'' \<mapsto> []]
   \<and> \<not> blank_row [''image_url'' \<mapsto> ''http://img'', ''status'' \<mapsto> []]
   \<and> (4::nat) \<le> 5
   \<and> status_is_posted (snd (ex_rows ! 0)) \<and> blank_row (snd (ex_rows ! 1))"
proof -
  have 1: "first_unposted ex_rows = Some (4, [''text'' \<mapsto> ''b'', ''status'' \<mapsto> ''failed''])"
    by (simp add: ex_rows_def row_eval)
  have 2: "sorted_wrt (<) (map fst ex_rows)" by (simp add: ex_rows_def)
  have 3: "(5, [''image_url'' \<mapsto> ''http://img'', ''status'' \<mapsto> []]) \<in> set ex_rows"
    by (simp add: ex_rows_def)
  have 4: "\<not> status_is_posted [''image_url'' \<mapsto> ''http://img'', ''status'' \<mapsto> []]"
    "\<not> blank_row [''image_url'' \<mapsto> ''http://img'', ''status'' \<mapsto> []]"
    by (simp_all add: row_eval)
  have 5: "status_is_posted (snd (ex_rows ! 0))" "blank_row (snd (ex_rows ! 1))"
    by (simp_all add: ex_rows_def row_eval)
  from first_unposted_lowest_eligible[of ex_rows] 1 2 3 4
  have "(4::nat) \<le> 5" by blast
  with 1 2 3 4 5 show ?thesis by blast
qed

section \<open>Properties of the header\<close>

lemma fold_ensure_col:
  "distinct cols \<Longrightarrow> fold ensure_col cols (h, b) =
     (h @ filter (\<lambda>c. c \<notin> set h) cols, b \<or> (\<exists>c \<in> set cols. c \<notin> set h))"
proof (induction cols arbitrary: h b)
  case Nil
  show ?case by simp
next
  case (Cons c cols)
  then show ?case
    by (auto simp: ensure_col_def intro!: filter_cong)
qed

lemma distinct_NEED_COLS: "distinct NEED_COLS"
  by (simp add: NEED_COLS_def)

lemma ensure_header_eq:
  "ensure_header ws =
     (sheet_header ws @ filter (\<lambda>c. c \<notin> set (sheet_header ws)) NEED_COLS,
      if set NEED_COLS \<subseteq> set (sheet_header ws) then ws
      else ws_update_row1 (sheet_header ws @ filter (\<lambda>c. c \<notin> set (sheet_header ws)) NEED_COLS) ws)"
proof (cases "get_all_values ws")
  case Nil
  have "NEED_COLS \<noteq> []" by (simp add: NEED_COLS_def)
  then have "\<not> set NEED_COLS \<subseteq> {}" by simp
  with Nil show ?thesis
    by (simp add: ensure_header_def sheet_header_def)
next
  case (Cons h rest)
  then show ?thesis
    by (auto simp: ensure_header_def sheet_header_def Let_def
        fold_ensure_col[OF distinct_NEED_COLS])
qed

lemma ensure_header_has_cols: "set NEED_COLS \<subseteq> set (fst (ensure_header ws))"
  by (auto simp: ensure_header_eq)

text \<open>
  C8. Whatever header the sheet has, the header that \<open>ensure_header\<close> returns contains the ten
  required names, starts with the header found (same columns, same order, extra columns kept)
  and continues with exactly the required names that were missing, in the order of
  \<open>NEED_COLS\<close>. When no required name is missing, the header is returned as found and the
  sheet is not written.
\<close>

theorem ensure_header_complete_and_preserving:
  "set NEED_COLS \<subseteq> set (fst (ensure_header ws))
   \<and> take (length (sheet_header ws)) (fst (ensure_header ws)) = sheet_header ws
   \<and> drop (length (sheet_header ws)) (fst (ensure_header ws))
       = filter (\<lambda>c. c \<notin> set (sheet_header ws)) NEED_COLS
   \<and> (set NEED_COLS \<subseteq> set (sheet_header ws) \<longrightarrow> ensure_header ws = (sheet_header ws, ws))"
proof -
  have "filter (\<lambda>c. c \<notin> set (sheet_header ws)) NEED_COLS = []"
    if "set NEED_COLS \<subseteq> set (sheet_header ws)"
    using that by (auto simp: filter_empty_conv)
  then show ?thesis
    by (auto simp: ensure_header_eq)
qed

theorem ensure_header_complete_and_preserving_witness:
  "set NEED_COLS \<subseteq> set (sheet_header ex_full_sheet)
   \<and> ensure_header ex_full_sheet = (sheet_header ex_full_sheet, ex_full_sheet)
   \<and> fst (ensure_header ex_sheet) =
       [''id'', ''status'', ''text'', ''note'', ''image_url'', ''alt_text'', ''link_attachment'',
        ''reply_control'', ''topic_tag'', ''location_id'', ''posted_at'', ''error'']"
proof -
  have 1: "set NEED_COLS \<subseteq> set (sheet_header ex_full_sheet)"
    by (simp add: NEED_COLS_def sheet_header_def ex_full_sheet_def get_all_values_def)
  have 2: "sheet_header ex_sheet = [''id'', ''status'', ''text'', ''note'']"
    by (simp add: sheet_header_def ex_sheet_def get_all_values_def)
  have 3: "filter (\<lambda>c. c \<notin> set (sheet_header ex_sheet)) NEED_COLS =
      [''image_url'', ''alt_text'', ''link_attachment'', ''reply_control'', ''topic_tag'',
       ''location_id'', ''posted_at'', ''error'']"
    by (simp add: 2 NEED_COLS_def)
  from ensure_header_complete_and_preserving[of ex_sheet]
  have "fst (ensure_header ex_sheet) =
      sheet_header ex_sheet @ filter (\<lambda>c. c \<notin> set (sheet_header ex_sheet)) NEED_COLS"
    by (metis append_take_drop_id)
  with 1 2 3 ensure_header_complete_and_preserving[of ex_full_sheet] show ?thesis by simp
qed

section \<open>Properties of the remote calls\<close>

lemma retry_3_1:
  "retry 3 1 f s =
     (case f s of
        (Inr v, s1) \<Rightarrow> (Inr v, s1)
      | (Inl e1, s1) \<Rightarrow>
         (case f s1 of
            (Inr v, s2) \<Rightarrow> (Inr v, s2)
          | (Inl e2, s2) \<Rightarrow> f s2))"
proof -
  have r3: "retry 3 3 f s' = f s'" for s'
    by (subst retry.simps) (simp split: prod.splits sum.splits)
  have r2: "retry 3 2 f s' = (case f s' of (Inr v, s2) \<Rightarrow> (Inr v, s2) | (Inl e2, s2) \<Rightarrow> f s2)" for s'
    by (subst retry.simps) (simp add: r3 split: prod.splits sum.splits)
  have "retry 3 1 f s =
      (case f s of (Inr v, s1) \<Rightarrow> (Inr v, s1) | (Inl e1, s1) \<Rightarrow> retry 3 2 f s1)"
    by (subst retry.simps) (simp add: numeral_2_eq_2 split: prod.splits sum.splits)
  then show ?thesis by (simp only: r2)
qed

lemma send_thrice:
  "retry 3 1 (\<lambda>log. case requests_post net rq log of (res, log') \<Rightarrow> (check_response res, log')) log =
     (case attempt_at net log 0 of
        Inr v \<Rightarrow> (Inr v, log @ [rq])
      | Inl e1 \<Rightarrow>
         (case attempt_at net log 1 of
            Inr v \<Rightarrow> (Inr v, log @ [rq, rq])
          | Inl e2 \<Rightarrow> (attempt_at net log 2, log @ [rq, rq, rq])))"
  by (simp only: retry_3_1) (simp add: requests_post_def attempt_at_def split: sum.splits)

lemma create_container_eq:
  "create_container net user_id token payload log =
     (case attempt_at net log 0 of
        Inr v \<Rightarrow> (Inr v, log @ [Post_threads user_id token payload])
      | Inl e1 \<Rightarrow>
         (case attempt_at net log 1 of
            Inr v \<Rightarrow> (Inr v, log @ [Post_threads user_id token payload, Post_threads user_id token payload])
          | Inl e2 \<Rightarrow> (attempt_at net log 2, log @ [Post_threads user_id token payload, Post_threads user_id token payload,
                   Post_threads user_id token payload])))"
proof -
  have "create_container_attempt net user_id token payload =
      (\<lambda>log. case requests_post net (Post_threads user_id token payload) log of
                (res, log') \<Rightarrow> (check_response res, log'))"
    by (rule ext) (simp add: create_container_attempt_def)
  then show ?thesis
    by (simp only: create_container_def send_thrice)
qed

lemma publish_container_eq:
  "publish_container net user_id token cid log =
     (case attempt_at net log 0 of
        Inr v \<Rightarrow> (Inr v, log @ [Post_threads_publish user_id token cid])
      | Inl e1 \<Rightarrow>
         (case attempt_at net log 1 of
            Inr v \<Rightarrow> (Inr v, log @ [Post_threads_publish user_id token cid, Post_threads_publish user_id token cid])
          | Inl e2 \<Rightarrow> (attempt_at net log 2, log @ [Post_threads_publish user_id token cid, Post_threads_publish user_id token cid,
                   Post_threads_publish user_id token cid])))"
proof -
  have "publish_container_attempt net user_id token cid =
      (\<lambda>log. case requests_post net (Post_threads_publish user_id token cid) log of
                (res, log') \<Rightarrow> (check_response res, log'))"
    by (rule ext) (simp add: publish_container_attempt_def)
  then show ?thesis
    by (simp only: publish_container_def send_thrice)
qed

section \<open>Properties of the payloads\<close>

lemma map_of_dict_set: "map_of (dict_set d k v) k' = (if k' = k then Some v else map_of d k')"
  by (induction d) auto

lemma map_of_copy_field:
  "map_of (copy_field row k p) k' =
     (if k' = k then (case field_of row k of None \<Rightarrow> map_of p k | Some x \<Rightarrow> Some x) else map_of p k')"
  by (auto simp: copy_field_def field_of_def map_of_dict_set split: option.splits)

lemma image_payload_fields:
  "map_of (image_payload row) ''media_type'' = Some (PStr ''IMAGE'')"
  "map_of (image_payload row) ''image_url'' = Some (PStr (py_strip (or_empty (row ''image_url''))))"
  "map_of (image_payload row) ''text'' = Some (PStr (py_strip (or_empty (row ''text''))))"
  "map_of (image_payload row) ''alt_text'' = field_of row ''alt_text''"
  "map_of (image_payload row) ''reply_control'' = field_of row ''reply_control''"
  "map_of (image_payload row) ''topic_tag'' = field_of row ''topic_tag''"
  "map_of (image_payload row) ''location_id'' = field_of row ''location_id''"
  "map_of (image_payload row) ''link_attachment'' = None"
  by (simp_all add: image_payload_def map_of_copy_field split: option.splits)

lemma text_payload_fields:
  "map_of (text_payload row) ''media_type'' = Some (PStr ''TEXT'')"
  "map_of (text_payload row) ''text'' = Some (PStr (py_strip (or_empty (row ''text''))))"
  "map_of (text_payload row) ''auto_publish_text'' = Some (PBool True)"
  "map_of (text_payload row) ''link_attachment'' = field_of row ''link_attachment''"
  "map_of (text_payload row) ''reply_control'' = field_of row ''reply_control''"
  "map_of (text_payload row) ''topic_tag'' = field_of row ''topic_tag''"
  "map_of (text_payload row) ''location_id'' = field_of row ''location_id''"
  "map_of (text_payload row) ''alt_text'' = None"
  "map_of (text_payload row) ''image_url'' = None"
  by (simp_all add: text_payload_def map_of_copy_field split: option.splits)

section \<open>Properties of the sheet writes\<close>

lemma cell_grid_set:
  assumes "1 \<le> r" "1 \<le> c"
  shows "cell (grid_set r c v ws) r' c' = (if r' = r \<and> c' = c then v else cell ws r' c')"
proof -
  define ws1 where "ws1 = pad_to r [] ws"
  define line where "line = pad_to c [] (ws1 ! (r - 1))"
  have g: "grid_set r c v ws = ws1[r - 1 := line[c - 1 := v]]"
    by (simp add: grid_set_def ws1_def line_def Let_def)
  have len1: "length ws1 = max r (length ws)" by (simp add: ws1_def pad_to_def)
  have lenl: "length line = max c (length (ws1 ! (r - 1)))" by (simp add: line_def pad_to_def)
  have ws1_nth: "ws1 ! i = (if i < length ws then ws ! i else [])" if "i < length ws1" for i
    using that by (auto simp: ws1_def pad_to_def nth_append)
  have line_nth: "line ! j = (if j < length (ws1 ! (r - 1)) then ws1 ! (r - 1) ! j else [])"
    if "j < length line" for j
    using that by (auto simp: line_def pad_to_def nth_append)
  show ?thesis
  proof (cases "r' = r")
    case True
    have r1: "r - 1 < length ws1" using assms len1 by simp
    show ?thesis
    proof (cases "c' = c")
      case True
      with \<open>r' = r\<close> assms r1 lenl len1 show ?thesis
        by (simp add: g cell_def)
    next
      case False
      have "cell (grid_set r c v ws) r c' = cell ws r c'"
        using assms r1 lenl False ws1_nth[OF r1] line_nth[of "c' - 1"]
        by (auto simp: g cell_def len1)
      with False \<open>r' = r\<close> show ?thesis by simp
    qed
  next
    case False
    have "cell (grid_set r c v ws) r' c' = cell ws r' c'"
      using assms False ws1_nth[of "r' - 1"]
      by (auto simp: g cell_def len1 nth_list_update)
    with False show ?thesis by simp
  qed
qed

lemma col_fold_Some:
  assumes f: "\<And>i h d. f (i, h) d = d(h \<mapsto> Suc i)"
  shows "fold f (enumerate n hs) d0 k = Some c \<Longrightarrow>
     (d0 k = Some c \<and> k \<notin> set hs) \<or> (n < c \<and> c \<le> n + length hs \<and> hs ! (c - 1 - n) = k)"
proof (induction hs arbitrary: n d0)
  case Nil
  then show ?case by simp
next
  case (Cons h hs)
  from Cons.prems have "fold f (enumerate (Suc n) hs) (d0(h \<mapsto> Suc n)) k = Some c"
    by (simp add: f del: fun_upd_apply)
  from Cons.IH[OF this] show ?case
  proof
    assume a: "(d0(h \<mapsto> Suc n)) k = Some c \<and> k \<notin> set hs"
    show ?thesis
    proof (cases "k = h")
      case True
      with a show ?thesis by auto
    next
      case False
      with a show ?thesis by auto
    qed
  next
    assume a: "Suc n < c \<and> c \<le> Suc n + length hs \<and> hs ! (c - 1 - Suc n) = k"
    then have "c - 1 - n = Suc (c - 1 - Suc n)" by arith
    with a show ?thesis by auto
  qed
qed

lemma col_fold_None:
  assumes f: "\<And>i h d. f (i, h) d = d(h \<mapsto> Suc i)"
  shows "fold f (enumerate n hs) d0 k = None \<longleftrightarrow> d0 k = None \<and> k \<notin> set hs"
proof (induction hs arbitrary: n d0)
  case Nil
  show ?case by simp
next
  case (Cons h hs)
  have "fold f (enumerate n (h # hs)) d0 k = fold f (enumerate (Suc n) hs) (d0(h \<mapsto> Suc n)) k"
    by (simp add: f del: fun_upd_apply)
  then show ?case by (auto simp: Cons.IH)
qed

lemma col_idx_Some:
  "col_idx header k = Some c \<Longrightarrow> 1 \<le> c \<and> c \<le> length header \<and> header ! (c - 1) = k"
  using col_fold_Some[of "\<lambda>(i, h) d. d(h \<mapsto> i + 1)" 0 header Map.empty k c]
  by (auto simp: col_idx_def)

lemma col_idx_None: "col_idx header k = None \<longleftrightarrow> k \<notin> set header"
  using col_fold_None[of "\<lambda>(i, h) d. d(h \<mapsto> i + 1)" 0 header Map.empty k]
  by (simp add: col_idx_def)

lemma col_idx_inj:
  "col_idx header k = Some c \<Longrightarrow> col_idx header k' = Some c' \<Longrightarrow> k \<noteq> k' \<Longrightarrow> c \<noteq> c'"
  using col_idx_Some by blast

section \<open>Properties of the submitter\<close>

lemma create_container_log:
  "\<exists>k. 1 \<le> k \<and> k \<le> 3 \<and>
     snd (create_container net user_id token payload log) =
       log @ replicate k (Post_threads user_id token payload)"
proof -
  let ?rq = "Post_threads user_id token payload"
  have r: "[?rq] = replicate 1 ?rq" "[?rq, ?rq] = replicate 2 ?rq" "[?rq, ?rq, ?rq] = replicate 3 ?rq"
    by (simp_all add: numeral_2_eq_2 numeral_3_eq_3)
  show ?thesis
  proof (cases "attempt_at net log 0")
    case (Inr v)
    then have "snd (create_container net user_id token payload log) = log @ replicate 1 ?rq"
      by (simp add: create_container_eq)
    then show ?thesis by (intro exI[of _ 1]) simp
  next
    case a0: (Inl e0)
    show ?thesis
    proof (cases "attempt_at net log 1")
      case (Inr v)
      with a0 have "snd (create_container net user_id token payload log) = log @ replicate 2 ?rq"
        by (simp add: create_container_eq numeral_2_eq_2)
      then show ?thesis by (intro exI[of _ 2]) simp
    next
      case (Inl e1)
      with a0 have "snd (create_container net user_id token payload log) = log @ replicate 3 ?rq"
        by (simp add: create_container_eq numeral_3_eq_3)
      then show ?thesis by (intro exI[of _ 3]) simp
    qed
  qed
qed

lemma publish_container_log:
  "\<exists>k. 1 \<le> k \<and> k \<le> 3 \<and>
     snd (publish_container net user_id token cid log) =
       log @ replicate k (Post_threads_publish user_id token cid)"
proof -
  let ?rq = "Post_threads_publish user_id token cid"
  show ?thesis
  proof (cases "attempt_at net log 0")
    case (Inr v)
    then have "snd (publish_container net user_id token cid log) = log @ replicate 1 ?rq"
      by (simp add: publish_container_eq)
    then show ?thesis by (intro exI[of _ 1]) simp
  next
    case a0: (Inl e0)
    show ?thesis
    proof (cases "attempt_at net log 1")
      case (Inr v)
      with a0 have "snd (publish_container net user_id token cid log) = log @ replicate 2 ?rq"
        by (simp add: publish_container_eq numeral_2_eq_2)
      then show ?thesis by (intro exI[of _ 2]) simp
    next
      case (Inl e1)
      with a0 have "snd (publish_container net user_id token cid log) = log @ replicate 3 ?rq"
        by (simp add: publish_container_eq numeral_3_eq_3)
      then show ?thesis by (intro exI[of _ 3]) simp
    qed
  qed
qed

lemma post_one_text:
  assumes "py_strip (or_empty (row ''image_url'')) = []"
  shows "post_one net user_id token row log =
     (case create_container net user_id token (text_payload row) log of
        (Inl e, log1) \<Rightarrow> (Inl e, log1)
      | (Inr data, log1) \<Rightarrow>
          (Inr \<lparr>res_status = ''published'', res_container_id = map_of data ''id'',
                res_media_type = ''TEXT'', res_publish = None\<rparr>, log1))"
  using assms by (simp add: post_one_def)

lemma post_one_text_log:
  assumes "py_strip (or_empty (row ''image_url'')) = []"
  shows "snd (post_one net user_id token row log) =
           snd (create_container net user_id token (text_payload row) log)"
  using assms by (simp add: post_one_text split: prod.splits sum.splits)

lemma post_one_image:
  assumes "py_strip (or_empty (row ''image_url'')) \<noteq> []"
  shows "post_one net user_id token row log =
     (case create_container net user_id token (image_payload row) log of
        (Inl e, log1) \<Rightarrow> (Inl e, log1)
      | (Inr data, log1) \<Rightarrow>
          (case publish_container net user_id token (map_of data ''id'') log1 of
             (Inl e, log2) \<Rightarrow> (Inl e, log2)
           | (Inr pub, log2) \<Rightarrow>
               (Inr \<lparr>res_status = ''published'', res_container_id = map_of data ''id'',
                     res_media_type = ''IMAGE'', res_publish = Some pub\<rparr>, log2)))"
  using assms by (simp add: post_one_def Let_def split: prod.splits sum.splits)

lemma strip_all_space:
  assumes "list_all py_isspace t"
  shows "py_strip t = []"
proof -
  from assms have h: "dropWhile py_isspace t = []"
    by (simp add: dropWhile_eq_Nil_conv list_all_iff)
  show ?thesis by (simp only: py_strip_def h rev.simps dropWhile.simps)
qed

text \<open>
  C2, amended. The branch is chosen on the trimmed image_url. When it is not empty, the
  submitter sends the create-container request one to three times with the image payload and,
  only when one of these attempts returns, the publish-container request one to three times
  with the id that create-container returned; when all three create attempts fail, the error
  is the result and nothing else is sent. When the trimmed image_url is empty, it sends only
  the create-container request, one to three times, with the text payload. The image payload
  has media_type IMAGE, the trimmed image_url and text, and alt_text, reply_control, topic_tag
  and location_id each exactly when the cell is present and not empty. The text payload has
  media_type TEXT, the trimmed text and auto_publish_text true, and link_attachment,
  reply_control, topic_tag and location_id each exactly when the cell is present and not
  empty; it never has alt_text.
\<close>

theorem post_one_requests:
  "(py_strip (or_empty (row ''image_url'')) \<noteq> [] \<longrightarrow>
      (\<exists>k. 1 \<le> k \<and> k \<le> 3 \<and>
         (case create_container net user_id token (image_payload row) log of
            (Inl e, log1) \<Rightarrow>
               post_one net user_id token row log = (Inl e, log1)
             \<and> log1 = log @ replicate k (Post_threads user_id token (image_payload row))
          | (Inr data, log1) \<Rightarrow>
               log1 = log @ replicate k (Post_threads user_id token (image_payload row))
             \<and> (\<exists>m. 1 \<le> m \<and> m \<le> 3 \<and>
                  snd (post_one net user_id token row log) =
                    log1 @ replicate m (Post_threads_publish user_id token (map_of data ''id''))))))
   \<and> (py_strip (or_empty (row ''image_url'')) = [] \<longrightarrow>
      (\<exists>k. 1 \<le> k \<and> k \<le> 3 \<and>
         snd (post_one net user_id token row log) =
           log @ replicate k (Post_threads user_id token (text_payload row))))
   \<and> map_of (image_payload row) ''media_type'' = Some (PStr ''IMAGE'')
   \<and> map_of (image_payload row) ''image_url'' = Some (PStr (py_strip (or_empty (row ''image_url''))))
   \<and> map_of (image_payload row) ''text'' = Some (PStr (py_strip (or_empty (row ''text''))))
   \<and> map_of (image_payload row) ''alt_text'' = field_of row ''alt_text''
   \<and> map_of (image_payload row) ''reply_control'' = field_of row ''reply_control''
   \<and> map_of (image_payload row) ''topic_tag'' = field_of row ''topic_tag''
   \<and> map_of (image_payload row) ''location_id'' = field_of row ''location_id''
   \<and> map_of (text_payload row) ''media_type'' = Some (PStr ''TEXT'')
   \<and> map_of (text_payload row) ''text'' = Some (PStr (py_strip (or_empty (row ''text''))))
   \<and> map_of (text_payload row) ''auto_publish_text'' = Some (PBool True)
   \<and> map_of (text_payload row) ''link_attachment'' = field_of row ''link_attachment''
   \<and> map_of (text_payload row) ''reply_control'' = field_of row ''reply_control''
   \<and> map_of (text_payload row) ''topic_tag'' = field_of row ''topic_tag''
   \<and> map_of (text_payload row) ''location_id'' = field_of row ''location_id''
   \<and> map_of (text_payload row) ''alt_text'' = None"
proof -
  have img: "\<exists>k. 1 \<le> k \<and> k \<le> 3 \<and>
         (case create_container net user_id token (image_payload row) log of
            (Inl e, log1) \<Rightarrow>
               post_one net user_id token row log = (Inl e, log1)
             \<and> log1 = log @ replicate k (Post_threads user_id token (image_payload row))
          | (Inr data, log1) \<Rightarrow>
               log1 = log @ replicate k (Post_threads user_id token (image_payload row))
             \<and> (\<exists>m. 1 \<le> m \<and> m \<le> 3 \<and>
                  snd (post_one net user_id token row log) =
                    log1 @ replicate m (Post_threads_publish user_id token (map_of data ''id''))))"
    if i: "py_strip (or_empty (row ''image_url'')) \<noteq> []"
  proof -
    obtain res log1 where c: "create_container net user_id token (image_payload row) log = (res, log1)"
      by (cases "create_container net user_id token (image_payload row) log")
    from create_container_log[of net user_id token "image_payload row" log] c
    obtain k where k: "1 \<le> k" "k \<le> 3"
      "log1 = log @ replicate k (Post_threads user_id token (image_payload row))" by auto
    show ?thesis
    proof (cases res)
      case (Inl e)
      with c k show ?thesis by (intro exI[of _ k]) (simp add: post_one_image i)
    next
      case (Inr data)
      have "snd (post_one net user_id token row log) =
          snd (publish_container net user_id token (map_of data ''id'') log1)"
        by (simp add: post_one_image i c Inr split: prod.splits sum.splits)
      with publish_container_log[of net user_id token "map_of data ''id''" log1]
      have "\<exists>m. 1 \<le> m \<and> m \<le> 3 \<and> snd (post_one net user_id token row log) =
          log1 @ replicate m (Post_threads_publish user_id token (map_of data ''id''))"
        by simp
      with c k Inr show ?thesis by (intro exI[of _ k]) simp
    qed
  qed
  have plain: "\<exists>k. 1 \<le> k \<and> k \<le> 3 \<and>
         snd (post_one net user_id token row log) =
           log @ replicate k (Post_threads user_id token (text_payload row))"
    if "py_strip (or_empty (row ''image_url'')) = []"
    using create_container_log[of net user_id token "text_payload row" log]
    by (simp add: post_one_text_log that)
  show ?thesis
    by (intro conjI impI)
       (erule img | erule plain | rule image_payload_fields | rule text_payload_fields)+
qed

lemmas post_eval = post_one_def create_container_eq publish_container_eq attempt_at_def
  check_response_def ok_net_def text_payload_def image_payload_def copy_field_def

theorem post_one_requests_witness:
  "py_strip (or_empty (ex_image_row ''image_url'')) \<noteq> []
   \<and> post_one ok_net ''u'' ''t'' ex_image_row [] =
       (Inr \<lparr>res_status = ''published'', res_container_id = Some ''c1'',
             res_media_type = ''IMAGE'', res_publish = Some [(''id'', ''c1'')]\<rparr>,
        [Post_threads ''u'' ''t''
           [(''media_type'', PStr ''IMAGE''), (''image_url'', PStr ''http://img''),
            (''text'', PStr ''x''), (''alt_text'', PStr ''pic'')],
         Post_threads_publish ''u'' ''t'' (Some ''c1'')])
   \<and> map_of (image_payload ex_image_row) ''alt_text'' = field_of ex_image_row ''alt_text''
   \<and> py_strip (or_empty (ex_alt_row ''image_url'')) = []
   \<and> (\<exists>k. 1 \<le> k \<and> k \<le> 3 \<and>
         snd (post_one ok_net ''u'' ''t'' ex_alt_row []) =
           [] @ replicate k (Post_threads ''u'' ''t'' (text_payload ex_alt_row)))"
proof -
  have 1: "py_strip (or_empty (ex_image_row ''image_url'')) \<noteq> []"
    by (simp add: ex_image_row_def row_eval)
  have 2: "post_one ok_net ''u'' ''t'' ex_image_row [] =
       (Inr \<lparr>res_status = ''published'', res_container_id = Some ''c1'',
             res_media_type = ''IMAGE'', res_publish = Some [(''id'', ''c1'')]\<rparr>,
        [Post_threads ''u'' ''t''
           [(''media_type'', PStr ''IMAGE''), (''image_url'', PStr ''http://img''),
            (''text'', PStr ''x''), (''alt_text'', PStr ''pic'')],
         Post_threads_publish ''u'' ''t'' (Some ''c1'')])"
    by (simp add: ex_image_row_def post_eval row_eval Let_def)
  have 3: "py_strip (or_empty (ex_alt_row ''image_url'')) = []"
    by (simp add: ex_alt_row_def row_eval)
  from post_one_requests[of ex_image_row]
  have 4: "map_of (image_payload ex_image_row) ''alt_text'' = field_of ex_image_row ''alt_text''"
    by blast
  from post_one_requests[of ex_alt_row ok_net "''u''" "''t''" "[]"] 3
  have 5: "\<exists>k. 1 \<le> k \<and> k \<le> 3 \<and>
         snd (post_one ok_net ''u'' ''t'' ex_alt_row []) =
           [] @ replicate k (Post_threads ''u'' ''t'' (text_payload ex_alt_row))"
    by blast
  from 1 2 3 4 5 show ?thesis by blast
qed

text \<open>
  The statement of C2 as written fails on two rows. A text post leaves out a present and
  non-empty alt_text, and an image_url that holds only a blank is trimmed to nothing, so the
  row is sent as a text post.
\<close>

theorem text_post_omits_alt_text:
  "field_of ex_alt_row ''alt_text'' = Some (PStr ''pic'')
   \<and> or_empty (ex_alt_row ''image_url'') = []
   \<and> or_empty (ex_alt_row ''text'') = ''hi''
   \<and> post_one ok_net ''u'' ''t'' ex_alt_row [] =
       (Inr \<lparr>res_status = ''published'', res_container_id = Some ''c1'',
             res_media_type = ''TEXT'', res_publish = None\<rparr>,
        [Post_threads ''u'' ''t''
           [(''media_type'', PStr ''TEXT''), (''text'', PStr ''hi''),
            (''auto_publish_text'', PBool True)]])
   \<and> or_empty (ex_padded_url_row ''image_url'') = '' ''
   \<and> snd (post_one ok_net ''u'' ''t'' ex_padded_url_row []) =
        [Post_threads ''u'' ''t''
           [(''media_type'', PStr ''TEXT''), (''text'', PStr ''x''),
            (''auto_publish_text'', PBool True)]]"
  by (simp add: ex_alt_row_def ex_padded_url_row_def field_of_def post_eval row_eval)

text \<open>
  C10. \<open>first_unposted\<close> tests text and image_url untrimmed, \<open>post_one\<close> trims them. So a
  row whose text is not empty but holds whitespace only, whose image_url is empty and whose
  status is not "posted" is selected when it comes first, and the submitter then sends a
  text post (media_type TEXT) whose text field is the empty string.
\<close>

theorem whitespace_text_selected_then_sent_empty:
  assumes "row ''text'' = Some t" and "t \<noteq> []" and "list_all py_isspace t"
    and "or_empty (row ''image_url'') = []"
    and "\<not> status_is_posted row"
  shows "first_unposted ((i, row) # rows) = Some (i, row)
     \<and> (\<exists>k. 1 \<le> k \<and> k \<le> 3 \<and>
           snd (post_one net user_id token row log) =
             log @ replicate k (Post_threads user_id token (text_payload row)))
     \<and> map_of (text_payload row) ''media_type'' = Some (PStr ''TEXT'')
     \<and> map_of (text_payload row) ''text'' = Some (PStr [])"
proof -
  from assms(1,2) have "\<not> blank_row row" by (simp add: blank_row_def dict_get_def)
  with assms(5) have 1: "first_unposted ((i, row) # rows) = Some (i, row)"
    by (simp add: first_unposted_Cons eligible_def del: first_unposted.simps)
  from assms(1,2) have "or_empty (row ''text'') = t" by (simp add: or_empty_def)
  with assms(3) have 2: "py_strip (or_empty (row ''text'')) = []" by (simp add: strip_all_space)
  from assms(4) have 3: "py_strip (or_empty (row ''image_url'')) = []" by (simp add: py_strip_def)
  have 4: "\<exists>k. 1 \<le> k \<and> k \<le> 3 \<and> snd (post_one net user_id token row log) =
             log @ replicate k (Post_threads user_id token (text_payload row))"
    using create_container_log[of net user_id token "text_payload row" log]
    by (simp add: post_one_text_log 3)
  from 1 2 4 show ?thesis by (simp add: text_payload_fields)
qed

theorem whitespace_text_selected_then_sent_empty_witness:
  "ex_space_row ''text'' = Some ''  '' \<and> list_all py_isspace ''  ''
   \<and> or_empty (ex_space_row ''image_url'') = [] \<and> \<not> status_is_posted ex_space_row
   \<and> first_unposted [(2, ex_space_row)] = Some (2, ex_space_row)
   \<and> map_of (text_payload ex_space_row) ''text'' = Some (PStr [])
   \<and> snd (post_one ok_net ''u'' ''t'' ex_space_row []) =
        [Post_threads ''u'' ''t''
           [(''media_type'', PStr ''TEXT''), (''text'', PStr []),
            (''auto_publish_text'', PBool True)]]"
proof -
  have h: "ex_space_row ''text'' = Some ''  ''" "''  '' \<noteq> []" "list_all py_isspace ''  ''"
    "or_empty (ex_space_row ''image_url'') = []" "\<not> status_is_posted ex_space_row"
    by (simp_all add: ex_space_row_def row_eval)
  have s: "snd (post_one ok_net ''u'' ''t'' ex_space_row []) =
        [Post_threads ''u'' ''t''
           [(''media_type'', PStr ''TEXT''), (''text'', PStr []),
            (''auto_publish_text'', PBool True)]]"
    by (simp add: ex_space_row_def post_eval row_eval)
  from whitespace_text_selected_then_sent_empty[OF h, of 2 "[]"]
  have "first_unposted [(2, ex_space_row)] = Some (2, ex_space_row)
      \<and> map_of (text_payload ex_space_row) ''text'' = Some (PStr [])"
    by blast
  with h s show ?thesis by blast
qed

section \<open>Properties of a firing\<close>

lemma strftime_nonempty: "strftime tm \<noteq> []"
  by (simp add: strftime_def)

lemma update_result_ok:
  assumes r: "1 \<le> row_idx"
    and cs: "col_idx header ''status'' = Some cs"
    and cp: "col_idx header ''posted_at'' = Some cp"
    and ce: "col_idx header ''error'' = Some ce"
  shows "\<exists>ws'. update_result ws header row_idx status err tm = (Inr (), ws')
      \<and> cell ws' row_idx cs = status
      \<and> cell ws' row_idx cp = (if status = ''posted'' then strftime tm else [])
      \<and> cell ws' row_idx ce = (if status = ''failed'' then take 3000 err else [])
      \<and> (\<forall>r c. (r, c) \<notin> {(row_idx, cs), (row_idx, cp), (row_idx, ce)} \<longrightarrow> cell ws' r c = cell ws r c)"
proof -
  from col_idx_Some[OF cs] col_idx_Some[OF cp] col_idx_Some[OF ce]
  have pos: "1 \<le> cs" "1 \<le> cp" "1 \<le> ce" by simp_all
  have d: "cs \<noteq> cp" "cs \<noteq> ce" "cp \<noteq> ce"
    using col_idx_inj[OF cs cp] col_idx_inj[OF cs ce] col_idx_inj[OF cp ce] by simp_all
  define v2 where "v2 = (if status = ''posted'' then strftime tm else [])"
  define v3 where "v3 = (if status = ''failed'' then take 3000 err else [])"
  define ws' where "ws' = grid_set row_idx ce v3 (grid_set row_idx cp v2 (grid_set row_idx cs status ws))"
  from r pos have u: "update_result ws header row_idx status err tm = (Inr (), ws')"
    by (simp add: update_result_def update_cell_def cs cp ce ws'_def v2_def v3_def Let_def)
  have c: "cell ws' r' c' =
      (if r' = row_idx \<and> c' = ce then v3 else if r' = row_idx \<and> c' = cp then v2
       else if r' = row_idx \<and> c' = cs then status else cell ws r' c')" for r' c'
    using r pos by (simp add: ws'_def cell_grid_set)
  from d have "cell ws' row_idx cs = status" "cell ws' row_idx cp = v2" "cell ws' row_idx ce = v3"
    by (simp_all add: c)
  moreover have "\<forall>r c. (r, c) \<notin> {(row_idx, cs), (row_idx, cp), (row_idx, ce)} \<longrightarrow> cell ws' r c = cell ws r c"
    by (simp add: c)
  ultimately show ?thesis using u by (simp add: v2_def v3_def)
qed

lemma need_cols_idx:
  assumes "set NEED_COLS \<subseteq> set header"
  shows "\<exists>cs cp ce. col_idx header ''status'' = Some cs \<and> col_idx header ''posted_at'' = Some cp
           \<and> col_idx header ''error'' = Some ce"
proof -
  from assms have "''status'' \<in> set header" "''posted_at'' \<in> set header" "''error'' \<in> set header"
    by (auto simp: NEED_COLS_def)
  then have "col_idx header ''status'' \<noteq> None" "col_idx header ''posted_at'' \<noteq> None"
    "col_idx header ''error'' \<noteq> None"
    by (simp_all add: col_idx_None)
  then show ?thesis by auto
qed

lemma rows_with_index_ge2: "(i, r) \<in> set (rows_with_index ws header) \<Longrightarrow> 2 \<le> i"
  by (auto simp: rows_with_index_def Let_def in_set_enumerate_eq split: if_splits)

lemma first_unposted_mem: "first_unposted rows = Some (i, r) \<Longrightarrow> (i, r) \<in> set rows"
  using first_unposted_Some[of rows i r] by (auto simp: in_set_conv_nth)

lemma post_next_unposted_picked:
  assumes pick: "first_unposted (rows_with_index ws header) = Some (row_idx, row)"
    and cols: "set NEED_COLS \<subseteq> set header"
  shows "post_next_unposted net user_id token header tm tm' ws log =
     (case post_one net user_id token row log of
        (Inl e, log') \<Rightarrow> (Inr False, snd (update_result ws header row_idx ''failed'' (str_exn e) tm'), log')
      | (Inr res, log') \<Rightarrow> (Inr True, snd (update_result ws header row_idx ''posted'' [] tm), log'))"
proof -
  from need_cols_idx[OF cols] obtain cs cp ce where c: "col_idx header ''status'' = Some cs"
    "col_idx header ''posted_at'' = Some cp" "col_idx header ''error'' = Some ce" by blast
  from rows_with_index_ge2[OF first_unposted_mem[OF pick]] have r: "1 \<le> row_idx" by simp
  obtain res log' where p: "post_one net user_id token row log = (res, log')"
    by (cases "post_one net user_id token row log")
  show ?thesis
  proof (cases res)
    case (Inl e)
    from update_result_ok[OF r c, of ws "''failed''" "str_exn e" tm']
    obtain wf where "update_result ws header row_idx ''failed'' (str_exn e) tm' = (Inr (), wf)"
      by blast
    with Inl show ?thesis
      by (simp add: post_next_unposted_def pick p on_exception_def)
  next
    case (Inr v)
    from update_result_ok[OF r c, of ws "''posted''" "[]" tm]
    obtain wp where "update_result ws header row_idx ''posted'' [] tm = (Inr (), wp)"
      by blast
    with Inr show ?thesis
      by (simp add: post_next_unposted_def pick p)
  qed
qed

text \<open>
  C3. For every row index from 1 on, every error string and every header with the required
  columns: \<open>update_result\<close> with "posted" sets the status cell of the row to "posted", the
  posted_at cell to the formatted clock reading, which is not empty, and the error cell to the
  empty string; with "failed" it sets the status cell to "failed", the error cell to the first
  3000 characters of the error string (at most 3000 long, and not empty when the error string
  is not empty) and the posted_at cell to the empty string. \<open>post_next_unposted\<close> makes the
  first call when \<open>post_one\<close> returns and the second, with the text of the exception, when
  \<open>post_one\<close> raises.
\<close>

theorem update_result_after_submission:
  assumes "1 \<le> row_idx" and "set NEED_COLS \<subseteq> set header"
  shows "\<exists>cs cp ce wp wf.
      col_idx header ''status'' = Some cs \<and> col_idx header ''posted_at'' = Some cp
    \<and> col_idx header ''error'' = Some ce
    \<and> update_result ws header row_idx ''posted'' err tm = (Inr (), wp)
    \<and> cell wp row_idx cs = ''posted''
    \<and> cell wp row_idx cp = strftime tm \<and> strftime tm \<noteq> []
    \<and> cell wp row_idx ce = []
    \<and> update_result ws header row_idx ''failed'' err tm = (Inr (), wf)
    \<and> cell wf row_idx cs = ''failed''
    \<and> cell wf row_idx ce = take 3000 err
    \<and> length (cell wf row_idx ce) \<le> 3000
    \<and> (err \<noteq> [] \<longrightarrow> cell wf row_idx ce \<noteq> [])
    \<and> cell wf row_idx cp = []
    \<and> (first_unposted (rows_with_index ws header) = Some (row_idx, row) \<longrightarrow>
         post_next_unposted net user_id token header tm tm' ws log =
           (case post_one net user_id token row log of
              (Inl e, log') \<Rightarrow>
                (Inr False, snd (update_result ws header row_idx ''failed'' (str_exn e) tm'), log')
            | (Inr res, log') \<Rightarrow>
                (Inr True, snd (update_result ws header row_idx ''posted'' [] tm), log')))"
proof -
  from need_cols_idx[OF assms(2)] obtain cs cp ce where c: "col_idx header ''status'' = Some cs"
    "col_idx header ''posted_at'' = Some cp" "col_idx header ''error'' = Some ce" by blast
  from update_result_ok[OF assms(1) c, of ws "''posted''" err tm]
  obtain wp where wp: "update_result ws header row_idx ''posted'' err tm = (Inr (), wp)"
    "cell wp row_idx cs = ''posted''" "cell wp row_idx cp = strftime tm" "cell wp row_idx ce = []"
    by auto
  from update_result_ok[OF assms(1) c, of ws "''failed''" err tm]
  obtain wf where wf: "update_result ws header row_idx ''failed'' err tm = (Inr (), wf)"
    "cell wf row_idx cs = ''failed''" "cell wf row_idx cp = []" "cell wf row_idx ce = take 3000 err"
    by auto
  have len: "length (cell wf row_idx ce) \<le> 3000" "err \<noteq> [] \<longrightarrow> cell wf row_idx ce \<noteq> []"
    by (simp_all add: wf(4))
  have fire: "first_unposted (rows_with_index ws header) = Some (row_idx, row) \<longrightarrow>
         post_next_unposted net user_id token header tm tm' ws log =
           (case post_one net user_id token row log of
              (Inl e, log') \<Rightarrow>
                (Inr False, snd (update_result ws header row_idx ''failed'' (str_exn e) tm'), log')
            | (Inr res, log') \<Rightarrow>
                (Inr True, snd (update_result ws header row_idx ''posted'' [] tm), log'))"
    using post_next_unposted_picked[OF _ assms(2)] by blast
  from c wp wf len fire strftime_nonempty[of tm] show ?thesis by blast
qed

lemmas sheet_eval = update_result_def update_cell_def grid_set_def pad_to_def col_idx_def
  strftime_def pad2_def py_str_nat.simps digit_char_def enumerate_eq_zip cell_def

theorem update_result_after_submission_witness:
  "(1::nat) \<le> 2 \<and> set NEED_COLS \<subseteq> set (hd ex_post_sheet)
   \<and> first_unposted (rows_with_index ex_post_sheet (hd ex_post_sheet)) = Some (2, mk_row (hd ex_post_sheet) [''hello''])
   \<and> update_result ex_post_sheet (hd ex_post_sheet) 2 ''posted'' [] ex_tm =
        (Inr (), [hd ex_post_sheet,
                  [''hello'', [], [], [], [], [], [], ''posted'', ''2024-03-09 07:05:00'', []]])
   \<and> update_result ex_post_sheet (hd ex_post_sheet) 2 ''failed'' ''HTTP 500: busy'' ex_tm =
        (Inr (), [hd ex_post_sheet,
                  [''hello'', [], [], [], [], [], [], ''failed'', [], ''HTTP 500: busy'']])
   \<and> (\<exists>cs cp ce wf. col_idx (hd ex_post_sheet) ''status'' = Some cs
         \<and> col_idx (hd ex_post_sheet) ''posted_at'' = Some cp
         \<and> col_idx (hd ex_post_sheet) ''error'' = Some ce
         \<and> update_result ex_post_sheet (hd ex_post_sheet) 2 ''failed'' ''HTTP 500: busy'' ex_tm = (Inr (), wf)
         \<and> cell wf 2 cs = ''failed'' \<and> cell wf 2 ce = take 3000 ''HTTP 500: busy'' \<and> cell wf 2 cp = [])"
proof -
  have 1: "(1::nat) \<le> 2" by simp
  have 2: "set NEED_COLS \<subseteq> set (hd ex_post_sheet)"
    by (simp add: NEED_COLS_def ex_post_sheet_def)
  have 3: "first_unposted (rows_with_index ex_post_sheet (hd ex_post_sheet)) = Some (2, mk_row (hd ex_post_sheet) [''hello''])"
    by (simp add: ex_post_sheet_def rows_with_index_def get_all_values_def mk_row_def
        enumerate_eq_zip row_eval)
  have 4: "update_result ex_post_sheet (hd ex_post_sheet) 2 ''posted'' [] ex_tm =
        (Inr (), [hd ex_post_sheet,
                  [''hello'', [], [], [], [], [], [], ''posted'', ''2024-03-09 07:05:00'', []]])"
    by (simp add: ex_post_sheet_def ex_tm_def sheet_eval)
  have 5: "update_result ex_post_sheet (hd ex_post_sheet) 2 ''failed'' ''HTTP 500: busy'' ex_tm =
        (Inr (), [hd ex_post_sheet,
                  [''hello'', [], [], [], [], [], [], ''failed'', [], ''HTTP 500: busy'']])"
    by (simp add: ex_post_sheet_def ex_tm_def sheet_eval)
  from update_result_after_submission[OF 1 2, of ex_post_sheet "''HTTP 500: busy''" ex_tm]
  have 6: "\<exists>cs cp ce wf. col_idx (hd ex_post_sheet) ''status'' = Some cs
         \<and> col_idx (hd ex_post_sheet) ''posted_at'' = Some cp
         \<and> col_idx (hd ex_post_sheet) ''error'' = Some ce
         \<and> update_result ex_post_sheet (hd ex_post_sheet) 2 ''failed'' ''HTTP 500: busy'' ex_tm = (Inr (), wf)
         \<and> cell wf 2 cs = ''failed'' \<and> cell wf 2 ce = take 3000 ''HTTP 500: busy'' \<and> cell wf 2 cp = []"
    by blast
  from 1 2 3 4 5 6 show ?thesis by blast
qed

lemma attempt_500:
  assumes "answers_status net (length log + i) 500"
  shows "\<exists>body. attempt_at net log i = Inl (Exception (''HTTP 500: '' @ body))"
proof -
  have "py_str_int 500 = ''500''"
    by (simp add: py_str_int_def py_str_nat.simps digit_char_def)
  with assms show ?thesis
    by (auto simp: answers_status_def attempt_at_def check_response_def split: http_result.splits)
qed

lemma create_three_500:
  assumes "answers_status net (length log) 500" "answers_status net (length log + 1) 500"
    "answers_status net (length log + 2) 500"
  shows "\<exists>body log'. create_container net user_id token payload log =
           (Inl (Exception (''HTTP 500: '' @ body)), log')"
proof -
  from attempt_500[of net log 0] attempt_500[OF assms(2)] attempt_500[OF assms(3)] assms(1)
  obtain b0 b1 b2 where "attempt_at net log 0 = Inl (Exception (''HTTP 500: '' @ b0))"
    "attempt_at net log 1 = Inl (Exception (''HTTP 500: '' @ b1))"
    "attempt_at net log 2 = Inl (Exception (''HTTP 500: '' @ b2))" by auto
  then show ?thesis by (simp add: create_container_eq)
qed

lemma publish_three_500:
  assumes "answers_status net (length log) 500" "answers_status net (length log + 1) 500"
    "answers_status net (length log + 2) 500"
  shows "\<exists>body log'. publish_container net user_id token cid log =
           (Inl (Exception (''HTTP 500: '' @ body)), log')"
proof -
  from attempt_500[of net log 0] attempt_500[OF assms(2)] attempt_500[OF assms(3)] assms(1)
  obtain b0 b1 b2 where "attempt_at net log 0 = Inl (Exception (''HTTP 500: '' @ b0))"
    "attempt_at net log 1 = Inl (Exception (''HTTP 500: '' @ b1))"
    "attempt_at net log 2 = Inl (Exception (''HTTP 500: '' @ b2))" by auto
  then show ?thesis by (simp add: publish_container_eq)
qed

lemma failed_firing:
  assumes pick: "first_unposted (rows_with_index ws header) = Some (row_idx, row)"
    and cols: "set NEED_COLS \<subseteq> set header"
    and p: "post_one net user_id token row log = (Inl (Exception (''HTTP 500: '' @ body)), log')"
  shows "\<exists>cs ce ws'. post_next_unposted net user_id token header tm tm' ws log = (Inr False, ws', log')
           \<and> col_idx header ''status'' = Some cs \<and> col_idx header ''error'' = Some ce
           \<and> cell ws' row_idx cs = ''failed''
           \<and> cell ws' row_idx ce = ''HTTP 500: '' @ take 2990 body"
proof -
  from need_cols_idx[OF cols] obtain cs cp ce where c: "col_idx header ''status'' = Some cs"
    "col_idx header ''posted_at'' = Some cp" "col_idx header ''error'' = Some ce" by blast
  from rows_with_index_ge2[OF first_unposted_mem[OF pick]] have r: "1 \<le> row_idx" by simp
  from update_result_ok[OF r c, of ws "''failed''" "''HTTP 500: '' @ body" tm']
  obtain wf where wf: "update_result ws header row_idx ''failed'' (''HTTP 500: '' @ body) tm' = (Inr (), wf)"
    "cell wf row_idx cs = ''failed''" "cell wf row_idx ce = take 3000 (''HTTP 500: '' @ body)"
    by auto
  from wf(1) have "snd (update_result ws header row_idx ''failed'' (''HTTP 500: '' @ body) tm') = wf"
    by (simp only: snd_conv)
  then have "post_next_unposted net user_id token header tm tm' ws log = (Inr False, wf, log')"
    by (simp only: post_next_unposted_picked[OF pick cols] p prod.case sum.case str_exn.simps)
  moreover have "take 3000 (''HTTP 500: '' @ body) = ''HTTP 500: '' @ take 2990 body"
    by simp
  ultimately show ?thesis using c wf by auto
qed

text \<open>
  C7. An attempt of either remote call that receives a response raises the exception with the
  text "HTTP <status>: <body>" when the status is 400 or more, and otherwise goes on to
  \<open>resp.json()\<close>. Each call sends its request at least once and at most three times. When
  three attempts in a row fail, the call raises the exception of the third attempt as it is.
  When the three requests of one call (the create-container of any picked row, or the
  publish-container that follows a create-container that returned) are all answered with
  status 500, the firing returns \<open>False\<close>, the status cell of the picked row is "failed" and
  its error cell starts with "HTTP 500: ", so it contains "500".
\<close>

theorem remote_call_errors_and_retries:
  "(\<forall>resp. net (length log) = Reply resp \<longrightarrow>
       fst (create_container_attempt net user_id token payload log) =
         (if status_code resp \<ge> 400
          then Inl (Exception (''HTTP '' @ py_str_int (status_code resp) @ '': '' @ resp_text resp))
          else resp_json resp)
     \<and> fst (publish_container_attempt net user_id token cid log) =
         (if status_code resp \<ge> 400
          then Inl (Exception (''HTTP '' @ py_str_int (status_code resp) @ '': '' @ resp_text resp))
          else resp_json resp))
   \<and> (\<exists>k. 1 \<le> k \<and> k \<le> 3 \<and>
         snd (create_container net user_id token payload log) =
           log @ replicate k (Post_threads user_id token payload))
   \<and> (\<exists>k. 1 \<le> k \<and> k \<le> 3 \<and>
         snd (publish_container net user_id token cid log) =
           log @ replicate k (Post_threads_publish user_id token cid))
   \<and> (\<forall>e1 e2 e3. attempt_at net log 0 = Inl e1 \<and> attempt_at net log 1 = Inl e2
          \<and> attempt_at net log 2 = Inl e3 \<longrightarrow>
         fst (create_container net user_id token payload log) = Inl e3
       \<and> fst (publish_container net user_id token cid log) = Inl e3)
   \<and> (first_unposted (rows_with_index ws header) = Some (row_idx, row)
        \<and> set NEED_COLS \<subseteq> set header
        \<and> answers_status net (length log) 500 \<and> answers_status net (length log + 1) 500
        \<and> answers_status net (length log + 2) 500 \<longrightarrow>
       (\<exists>cs ce ws' log' body.
           post_next_unposted net user_id token header tm tm' ws log = (Inr False, ws', log')
         \<and> col_idx header ''status'' = Some cs \<and> col_idx header ''error'' = Some ce
         \<and> cell ws' row_idx cs = ''failed''
         \<and> cell ws' row_idx ce = ''HTTP 500: '' @ take 2990 body))
   \<and> (\<forall>data log1.
        first_unposted (rows_with_index ws header) = Some (row_idx, row)
        \<and> set NEED_COLS \<subseteq> set header
        \<and> py_strip (or_empty (row ''image_url'')) \<noteq> []
        \<and> create_container net user_id token (image_payload row) log = (Inr data, log1)
        \<and> answers_status net (length log1) 500 \<and> answers_status net (length log1 + 1) 500
        \<and> answers_status net (length log1 + 2) 500 \<longrightarrow>
       (\<exists>cs ce ws' log' body.
           post_next_unposted net user_id token header tm tm' ws log = (Inr False, ws', log')
         \<and> col_idx header ''status'' = Some cs \<and> col_idx header ''error'' = Some ce
         \<and> cell ws' row_idx cs = ''failed''
         \<and> cell ws' row_idx ce = ''HTTP 500: '' @ take 2990 body))"
proof (intro conjI allI impI)
  fix resp assume "net (length log) = Reply resp"
  then show "fst (create_container_attempt net user_id token payload log) =
         (if status_code resp \<ge> 400
          then Inl (Exception (''HTTP '' @ py_str_int (status_code resp) @ '': '' @ resp_text resp))
          else resp_json resp)"
    and "fst (publish_container_attempt net user_id token cid log) =
         (if status_code resp \<ge> 400
          then Inl (Exception (''HTTP '' @ py_str_int (status_code resp) @ '': '' @ resp_text resp))
          else resp_json resp)"
    by (simp_all add: create_container_attempt_def publish_container_attempt_def
        requests_post_def check_response_def)
next
  show "\<exists>k. 1 \<le> k \<and> k \<le> 3 \<and>
         snd (create_container net user_id token payload log) =
           log @ replicate k (Post_threads user_id token payload)"
    by (rule create_container_log)
next
  show "\<exists>k. 1 \<le> k \<and> k \<le> 3 \<and>
         snd (publish_container net user_id token cid log) =
           log @ replicate k (Post_threads_publish user_id token cid)"
    by (rule publish_container_log)
next
  fix e1 e2 e3
  assume "attempt_at net log 0 = Inl e1 \<and> attempt_at net log 1 = Inl e2
          \<and> attempt_at net log 2 = Inl e3"
  then show "fst (create_container net user_id token payload log) = Inl e3"
    and "fst (publish_container net user_id token cid log) = Inl e3"
    by (simp_all add: create_container_eq publish_container_eq)
next
  assume a: "first_unposted (rows_with_index ws header) = Some (row_idx, row)
        \<and> set NEED_COLS \<subseteq> set header
        \<and> answers_status net (length log) 500 \<and> answers_status net (length log + 1) 500
        \<and> answers_status net (length log + 2) 500"
  then have s: "answers_status net (length log) 500" "answers_status net (length log + 1) 500"
    "answers_status net (length log + 2) 500" by simp_all
  have "\<exists>body log'. post_one net user_id token row log = (Inl (Exception (''HTTP 500: '' @ body)), log')"
  proof (cases "py_strip (or_empty (row ''image_url'')) = []")
    case True
    from create_three_500[OF s, of user_id token "text_payload row"] show ?thesis
      by (auto simp: post_one_text True)
  next
    case False
    from create_three_500[OF s, of user_id token "image_payload row"] show ?thesis
      by (auto simp: post_one_image False)
  qed
  then obtain body log' where
    "post_one net user_id token row log = (Inl (Exception (''HTTP 500: '' @ body)), log')" by blast
  from failed_firing[OF _ _ this, of ws header row_idx tm tm'] a
  show "\<exists>cs ce ws' log' body.
           post_next_unposted net user_id token header tm tm' ws log = (Inr False, ws', log')
         \<and> col_idx header ''status'' = Some cs \<and> col_idx header ''error'' = Some ce
         \<and> cell ws' row_idx cs = ''failed''
         \<and> cell ws' row_idx ce = ''HTTP 500: '' @ take 2990 body"
    by blast
next
  fix data log1
  assume a: "first_unposted (rows_with_index ws header) = Some (row_idx, row)
        \<and> set NEED_COLS \<subseteq> set header
        \<and> py_strip (or_empty (row ''image_url'')) \<noteq> []
        \<and> create_container net user_id token (image_payload row) log = (Inr data, log1)
        \<and> answers_status net (length log1) 500 \<and> answers_status net (length log1 + 1) 500
        \<and> answers_status net (length log1 + 2) 500"
  then have s: "answers_status net (length log1) 500" "answers_status net (length log1 + 1) 500"
    "answers_status net (length log1 + 2) 500" by simp_all
  from publish_three_500[OF s, of user_id token "map_of data ''id''"] a
  have "\<exists>body log'. post_one net user_id token row log = (Inl (Exception (''HTTP 500: '' @ body)), log')"
    by (auto simp: post_one_image)
  then obtain body log' where
    "post_one net user_id token row log = (Inl (Exception (''HTTP 500: '' @ body)), log')" by blast
  from failed_firing[OF _ _ this, of ws header row_idx tm tm'] a
  show "\<exists>cs ce ws' log' body.
           post_next_unposted net user_id token header tm tm' ws log = (Inr False, ws', log')
         \<and> col_idx header ''status'' = Some cs \<and> col_idx header ''error'' = Some ce
         \<and> cell ws' row_idx cs = ''failed''
         \<and> cell ws' row_idx ce = ''HTTP 500: '' @ take 2990 body"
    by blast
qed

theorem remote_call_errors_and_retries_witness:
  "net_500 (length ([] :: request list)) =
      Reply \<lparr>status_code = 500, resp_text = ''busy'', resp_json = Inl (JSONDecodeError ''Expecting value'')\<rparr>
   \<and> fst (create_container_attempt net_500 ''u'' ''t'' [] []) = Inl (Exception ''HTTP 500: busy'')
   \<and> attempt_at net_500 [] 0 = Inl (Exception ''HTTP 500: busy'')
   \<and> attempt_at net_500 [] 1 = Inl (Exception ''HTTP 500: busy'')
   \<and> attempt_at net_500 [] 2 = Inl (Exception ''HTTP 500: busy'')
   \<and> fst (publish_container net_500 ''u'' ''t'' None []) = Inl (Exception ''HTTP 500: busy'')
   \<and> first_unposted (rows_with_index ex_post_sheet (hd ex_post_sheet)) =
        Some (2, mk_row (hd ex_post_sheet) [''hello''])
   \<and> set NEED_COLS \<subseteq> set (hd ex_post_sheet)
   \<and> answers_status net_500 (length ([] :: request list)) 500
   \<and> answers_status net_500 (length ([] :: request list) + 1) 500
   \<and> answers_status net_500 (length ([] :: request list) + 2) 500
   \<and> (\<exists>cs ce ws' log' body.
         post_next_unposted net_500 ''u'' ''t'' (hd ex_post_sheet) ex_tm ex_tm ex_post_sheet [] =
           (Inr False, ws', log')
       \<and> col_idx (hd ex_post_sheet) ''status'' = Some cs
       \<and> col_idx (hd ex_post_sheet) ''error'' = Some ce
       \<and> cell ws' 2 cs = ''failed'' \<and> cell ws' 2 ce = ''HTTP 500: '' @ take 2990 body)
   \<and> first_unposted (rows_with_index ex_image_sheet (hd ex_image_sheet)) =
        Some (2, mk_row (hd ex_image_sheet) [''x'', ''http://img''])
   \<and> set NEED_COLS \<subseteq> set (hd ex_image_sheet)
   \<and> py_strip (or_empty (mk_row (hd ex_image_sheet) [''x'', ''http://img''] ''image_url'')) \<noteq> []
   \<and> create_container net_ok_then_500 ''u'' ''t''
        (image_payload (mk_row (hd ex_image_sheet) [''x'', ''http://img''])) [] =
        (Inr [(''id'', ''c1'')],
         [Post_threads ''u'' ''t'' (image_payload (mk_row (hd ex_image_sheet) [''x'', ''http://img'']))])
   \<and> answers_status net_ok_then_500 1 500 \<and> answers_status net_ok_then_500 2 500
   \<and> answers_status net_ok_then_500 3 500
   \<and> (\<exists>cs ce ws' log' body.
         post_next_unposted net_ok_then_500 ''u'' ''t'' (hd ex_image_sheet) ex_tm ex_tm ex_image_sheet [] =
           (Inr False, ws', log')
       \<and> col_idx (hd ex_image_sheet) ''status'' = Some cs
       \<and> col_idx (hd ex_image_sheet) ''error'' = Some ce
       \<and> cell ws' 2 cs = ''failed'' \<and> cell ws' 2 ce = ''HTTP 500: '' @ take 2990 body)"
proof -
  have str500: "py_str_int 500 = ''500''"
    by (simp add: py_str_int_def py_str_nat.simps digit_char_def)
  have 1: "net_500 (length ([] :: request list)) =
      Reply \<lparr>status_code = 500, resp_text = ''busy'', resp_json = Inl (JSONDecodeError ''Expecting value'')\<rparr>"
    by (simp add: net_500_def)
  have 2: "attempt_at net_500 [] 0 = Inl (Exception ''HTTP 500: busy'')"
    "attempt_at net_500 [] 1 = Inl (Exception ''HTTP 500: busy'')"
    "attempt_at net_500 [] 2 = Inl (Exception ''HTTP 500: busy'')"
    by (simp_all add: attempt_at_def net_500_def check_response_def str500)
  have 3: "first_unposted (rows_with_index ex_post_sheet (hd ex_post_sheet)) =
        Some (2, mk_row (hd ex_post_sheet) [''hello''])"
    by (simp add: ex_post_sheet_def rows_with_index_def get_all_values_def mk_row_def
        enumerate_eq_zip row_eval)
  have 4: "set NEED_COLS \<subseteq> set (hd ex_post_sheet)" "set NEED_COLS \<subseteq> set (hd ex_image_sheet)"
    by (simp_all add: NEED_COLS_def ex_post_sheet_def ex_image_sheet_def)
  have 5: "answers_status net_500 (length ([] :: request list)) 500"
    "answers_status net_500 (length ([] :: request list) + 1) 500"
    "answers_status net_500 (length ([] :: request list) + 2) 500"
    by (simp_all add: answers_status_def net_500_def)
  have 6: "first_unposted (rows_with_index ex_image_sheet (hd ex_image_sheet)) =
        Some (2, mk_row (hd ex_image_sheet) [''x'', ''http://img''])"
    by (simp add: ex_image_sheet_def rows_with_index_def get_all_values_def mk_row_def
        enumerate_eq_zip row_eval)
  have 7: "py_strip (or_empty (mk_row (hd ex_image_sheet) [''x'', ''http://img''] ''image_url'')) \<noteq> []"
    by (simp add: ex_image_sheet_def mk_row_def enumerate_eq_zip row_eval)
  have 8: "create_container net_ok_then_500 ''u'' ''t''
        (image_payload (mk_row (hd ex_image_sheet) [''x'', ''http://img''])) [] =
        (Inr [(''id'', ''c1'')],
         [Post_threads ''u'' ''t'' (image_payload (mk_row (hd ex_image_sheet) [''x'', ''http://img'']))])"
    by (simp add: create_container_eq attempt_at_def net_ok_then_500_def ok_net_def check_response_def)
  have 9: "answers_status net_ok_then_500 1 500" "answers_status net_ok_then_500 2 500"
    "answers_status net_ok_then_500 3 500"
    by (simp_all add: answers_status_def net_ok_then_500_def net_500_def)
  note thm1 = remote_call_errors_and_retries[of net_500 "[]" "''u''" "''t''" "[]" None
      ex_post_sheet "hd ex_post_sheet" 2 "mk_row (hd ex_post_sheet) [''hello'']" ex_tm ex_tm]
  from thm1 1 have a: "fst (create_container_attempt net_500 ''u'' ''t'' [] []) = Inl (Exception ''HTTP 500: busy'')"
    by (simp add: str500)
  from thm1 2 have c: "fst (publish_container net_500 ''u'' ''t'' None []) = Inl (Exception ''HTTP 500: busy'')"
    by blast
  from thm1 3 4 5 have d: "\<exists>cs ce ws' log' body.
         post_next_unposted net_500 ''u'' ''t'' (hd ex_post_sheet) ex_tm ex_tm ex_post_sheet [] =
           (Inr False, ws', log')
       \<and> col_idx (hd ex_post_sheet) ''status'' = Some cs
       \<and> col_idx (hd ex_post_sheet) ''error'' = Some ce
       \<and> cell ws' 2 cs = ''failed'' \<and> cell ws' 2 ce = ''HTTP 500: '' @ take 2990 body"
    by blast
  have len: "length [Post_threads ''u'' ''t'' (image_payload (mk_row (hd ex_image_sheet) [''x'', ''http://img'']))] = 1"
    by simp
  note thm2 = remote_call_errors_and_retries[of net_ok_then_500 "[]" "''u''" "''t''" "[]" None
      ex_image_sheet "hd ex_image_sheet" 2 "mk_row (hd ex_image_sheet) [''x'', ''http://img'']" ex_tm ex_tm]
  have s9: "answers_status net_ok_then_500
        (length [Post_threads ''u'' ''t'' (image_payload (mk_row (hd ex_image_sheet) [''x'', ''http://img'']))]) 500"
    "answers_status net_ok_then_500
        (length [Post_threads ''u'' ''t'' (image_payload (mk_row (hd ex_image_sheet) [''x'', ''http://img'']))] + 1) 500"
    "answers_status net_ok_then_500
        (length [Post_threads ''u'' ''t'' (image_payload (mk_row (hd ex_image_sheet) [''x'', ''http://img'']))] + 2) 500"
    by (simp_all add: answers_status_def net_ok_then_500_def net_500_def)
  from thm2 6 4 7 8 s9 have d': "\<exists>cs ce ws' log' body.
         post_next_unposted net_ok_then_500 ''u'' ''t'' (hd ex_image_sheet) ex_tm ex_tm ex_image_sheet [] =
           (Inr False, ws', log')
       \<and> col_idx (hd ex_image_sheet) ''status'' = Some cs
       \<and> col_idx (hd ex_image_sheet) ''error'' = Some ce
       \<and> cell ws' 2 cs = ''failed'' \<and> cell ws' 2 ce = ''HTTP 500: '' @ take 2990 body"
    by blast
  from 1 a 2 c 3 4 5 d 6 7 8 9 d' show ?thesis by blast
qed

section \<open>Properties of the scheduling engine\<close>

lemma int_total_seconds_nonneg:
  assumes "0 \<le> d"
  shows "0 \<le> int_total_seconds d \<and> seconds (int_total_seconds d) \<le> d"
proof -
  have "d div 1000000 * 1000000 = d - d mod 1000000"
    by (simp add: minus_mod_eq_div_mult)
  moreover have "0 \<le> d mod 1000000" by simp
  ultimately show ?thesis using assms
    by (simp add: int_total_seconds_def seconds_def pos_imp_zdiv_nonneg_iff)
qed

lemma int_total_seconds_ge:
  assumes "seconds n \<le> d" "0 \<le> n"
  shows "n \<le> int_total_seconds d"
proof -
  from assms have "0 \<le> d" by (simp add: seconds_def)
  moreover from assms(1) have "n * 1000000 div 1000000 \<le> d div 1000000"
    unfolding seconds_def by (rule zdiv_mono1) simp
  ultimately show ?thesis by (simp add: int_total_seconds_def)
qed

lemma int_total_seconds_neg: "d < 0 \<Longrightarrow> int_total_seconds d \<le> 0"
  by (simp add: int_total_seconds_def)

lemma randint_range:
  "0 \<le> n \<Longrightarrow> \<exists>offs. randint u 0 n = Inr offs \<and> 0 \<le> offs \<and> offs \<le> n"
  using pos_mod_bound[of "n + 1" "int u"] by (auto simp: randint_def)

lemma seconds_mono: "a \<le> b \<Longrightarrow> seconds a \<le> seconds b"
  by (simp add: seconds_def)

lemma seconds_nonneg: "0 \<le> a \<Longrightarrow> 0 \<le> seconds a"
  by (simp add: seconds_def)

lemma next_at_with_jitter_bounds:
  assumes p: "parse_hhmm_ext time_str = Inr (d, t)"
  shows "\<exists>r. next_at_with_jitter time_str jitter_min ref u = Inr r
     \<and> jitter_target d t jitter_min ref - minutes jitter_min \<le> r
     \<and> ref + seconds 5 \<le> r
     \<and> r \<le> max (jitter_target d t jitter_min ref + minutes jitter_min)
               (max (jitter_target d t jitter_min ref - minutes jitter_min) (ref + seconds 5) + seconds 60)
     \<and> (seconds 60 \<le> jitter_target d t jitter_min ref + minutes jitter_min
            - max (jitter_target d t jitter_min ref - minutes jitter_min) (ref + seconds 5)
          \<longrightarrow> r \<le> jitter_target d t jitter_min ref + minutes jitter_min)"
proof -
  define target where "target = jitter_target d t jitter_min ref"
  define start where "start = max (target - minutes jitter_min) (ref + seconds 5)"
  define fin where "fin = target + minutes jitter_min"
  define secs where "secs = max 60 (int_total_seconds (fin - start))"
  have secs60: "60 \<le> secs" by (simp add: secs_def)
  then have "0 \<le> secs" by simp
  from randint_range[OF this, of u] obtain offs where
    offs: "randint u 0 secs = Inr offs" "0 \<le> offs" "offs \<le> secs" by blast
  have eq: "next_at_with_jitter time_str jitter_min ref u = Inr (start + seconds offs)"
  proof (cases "ref > combine (date_of ref) t + days d + minutes jitter_min")
    case True
    then have "target = combine (date_of ref) t + days d + days 1"
      by (simp add: target_def jitter_target_def Let_def)
    with offs(1) True show ?thesis
      by (simp add: next_at_with_jitter_def p Let_def start_def fin_def secs_def)
  next
    case False
    then have "target = combine (date_of ref) t + days d"
      by (simp add: target_def jitter_target_def Let_def)
    with offs(1) False show ?thesis
      by (simp add: next_at_with_jitter_def p Let_def start_def fin_def secs_def)
  qed
  have lo: "start \<le> start + seconds offs" using seconds_nonneg[OF offs(2)] by simp
  have hi: "start + seconds offs \<le> max fin (start + seconds 60)"
  proof (cases "seconds 60 \<le> fin - start")
    case True
    then have "0 \<le> fin - start" by (simp add: seconds_def)
    from int_total_seconds_nonneg[OF this] int_total_seconds_ge[OF True]
    have "secs = int_total_seconds (fin - start)" "seconds secs \<le> fin - start"
      by (simp_all add: secs_def)
    with seconds_mono[OF offs(3)] show ?thesis by simp
  next
    case False
    have "int_total_seconds (fin - start) \<le> 60"
    proof (cases "0 \<le> fin - start")
      case True
      from int_total_seconds_nonneg[OF True] False show ?thesis
        by (simp add: seconds_def)
    next
      case False
      then show ?thesis using int_total_seconds_neg[of "fin - start"] by simp
    qed
    then have "secs = 60" by (simp add: secs_def)
    with seconds_mono[OF offs(3)] show ?thesis by simp
  qed
  have hi2: "start + seconds offs \<le> fin" if "seconds 60 \<le> fin - start"
  proof -
    from that have "0 \<le> fin - start" by (simp add: seconds_def)
    from int_total_seconds_nonneg[OF this] int_total_seconds_ge[OF that]
    have "seconds secs \<le> fin - start" by (simp add: secs_def)
    with seconds_mono[OF offs(3)] show ?thesis by simp
  qed
  from lo hi hi2 show ?thesis
    unfolding eq target_def[symmetric] by (auto simp: start_def fin_def)
qed

lemmas parse_eval = parse_hhmm_ext_def parse_hhmm_def unpack_two_ints_def py_int_def digit_val_def
  mk_dtime_def py_strip_def py_isspace_def py_whitespace_def Let_def

lemmas time_eval = next_at_with_jitter_def next_random_in_window_def combine_def date_of_def days_def
  seconds_def minutes_def int_total_seconds_def randint_def jitter_target_def

lemma parse_12: "parse_hhmm_ext ''12:00'' = Inr (0, \<lparr>hour = 12, minute = 0\<rparr>)"
  by (simp add: parse_eval)

text \<open>
  C4, amended. For every time-of-day string that parses, every jitter J in minutes and every
  reference instant, \<open>_next_at_with_jitter\<close> returns an instant that is not before the
  target minus J minutes, is at least 5 seconds after the reference, and is not after the
  later of the target plus J minutes and 60 seconds past the start of the draw, which is the
  later of the target minus J minutes and the reference plus 5 seconds. When at least 60
  seconds lie between that start and the target plus J minutes, the instant lies within
  J minutes of the target.
\<close>

theorem next_at_with_jitter_range:
  assumes "parse_hhmm_ext time_str = Inr (d, t)"
  shows "\<exists>r. next_at_with_jitter time_str jitter_min ref u = Inr r
     \<and> jitter_target d t jitter_min ref - minutes jitter_min \<le> r
     \<and> ref + seconds 5 \<le> r
     \<and> r \<le> max (jitter_target d t jitter_min ref + minutes jitter_min)
               (max (jitter_target d t jitter_min ref - minutes jitter_min) (ref + seconds 5) + seconds 60)
     \<and> (seconds 60 \<le> jitter_target d t jitter_min ref + minutes jitter_min
            - max (jitter_target d t jitter_min ref - minutes jitter_min) (ref + seconds 5)
          \<longrightarrow> r \<le> jitter_target d t jitter_min ref + minutes jitter_min)"
  using assms by (rule next_at_with_jitter_bounds)

theorem next_at_with_jitter_range_witness:
  "parse_hhmm_ext ''12:00'' = Inr (0, \<lparr>hour = 12, minute = 0\<rparr>)
   \<and> jitter_target 0 \<lparr>hour = 12, minute = 0\<rparr> 30 (seconds 36000) = seconds 43200
   \<and> seconds 60 \<le> jitter_target 0 \<lparr>hour = 12, minute = 0\<rparr> 30 (seconds 36000) + minutes 30
        - max (jitter_target 0 \<lparr>hour = 12, minute = 0\<rparr> 30 (seconds 36000) - minutes 30)
              (seconds 36000 + seconds 5)
   \<and> next_at_with_jitter ''12:00'' 30 (seconds 36000) 4000 = Inr (seconds 41799)
   \<and> (\<exists>r. next_at_with_jitter ''12:00'' 30 (seconds 36000) 4000 = Inr r
         \<and> seconds 43200 - minutes 30 \<le> r \<and> seconds 36000 + seconds 5 \<le> r
         \<and> r \<le> seconds 43200 + minutes 30)"
proof -
  have 1: "jitter_target 0 \<lparr>hour = 12, minute = 0\<rparr> 30 (seconds 36000) = seconds 43200"
    by (simp add: time_eval)
  have 2: "seconds 60 \<le> jitter_target 0 \<lparr>hour = 12, minute = 0\<rparr> 30 (seconds 36000) + minutes 30
        - max (jitter_target 0 \<lparr>hour = 12, minute = 0\<rparr> 30 (seconds 36000) - minutes 30)
              (seconds 36000 + seconds 5)"
    by (simp add: time_eval)
  have 3: "next_at_with_jitter ''12:00'' 30 (seconds 36000) 4000 = Inr (seconds 41799)"
    by (simp add: parse_12 time_eval)
  from next_at_with_jitter_range[OF parse_12, of 30 "seconds 36000" 4000] 2
  have "\<exists>r. next_at_with_jitter ''12:00'' 30 (seconds 36000) 4000 = Inr r
         \<and> seconds 43200 - minutes 30 \<le> r \<and> seconds 36000 + seconds 5 \<le> r
         \<and> r \<le> seconds 43200 + minutes 30"
    unfolding 1 by blast
  with parse_12 1 2 3 show ?thesis by blast
qed

text \<open>
  The statement of C4 as written fails: with no jitter the draw still spans 60 seconds after
  the target, and with 30 minutes of jitter a reference two seconds before the end of the
  window gives an instant after the window.
\<close>

theorem jitter_instant_after_window:
  "parse_hhmm_ext ''12:00'' = Inr (0, \<lparr>hour = 12, minute = 0\<rparr>)
   \<and> jitter_target 0 \<lparr>hour = 12, minute = 0\<rparr> 0 0 = seconds 43200
   \<and> next_at_with_jitter ''12:00'' 0 0 60 = Inr (seconds 43260)
   \<and> seconds 43260 > seconds 43200 + minutes 0
   \<and> jitter_target 0 \<lparr>hour = 12, minute = 0\<rparr> 30 (seconds 44998) = seconds 43200
   \<and> next_at_with_jitter ''12:00'' 30 (seconds 44998) 60 = Inr (seconds 45063)
   \<and> seconds 45063 > seconds 43200 + minutes 30"
  by (simp add: parse_12 time_eval)

lemma min_item_Some:
  "min_item m = Some (k, v) \<Longrightarrow> (k, v) \<in> set m \<and> (\<forall>(k', v') \<in> set m. v \<le> v')"
proof (induction m arbitrary: k v)
  case Nil
  then show ?case by simp
next
  case (Cons kv m)
  show ?case
  proof (cases "min_item m")
    case None
    then have "m = []" by (cases m) (auto split: option.splits if_splits)
    with Cons.prems None show ?thesis by auto
  next
    case (Some kv')
    obtain k' v' where kv': "kv' = (k', v')" by (cases kv')
    from Cons.IH[of k' v'] Some kv'
    have ih: "(k', v') \<in> set m" "\<forall>(a, b) \<in> set m. v' \<le> b" by auto
    show ?thesis
    proof (cases "v' < snd kv")
      case True
      with Cons.prems Some kv' have "(k, v) = (k', v')" by simp
      with ih True show ?thesis by (cases kv) auto
    next
      case False
      with Cons.prems Some kv' have "kv = (k, v)" by simp
      with ih False show ?thesis by fastforce
    qed
  qed
qed

lemma min_item_None: "min_item m = None \<longleftrightarrow> m = []"
  by (cases m) (auto split: option.splits if_splits)

lemma keys_dict_set: "k \<in> fst ` set d \<Longrightarrow> map fst (dict_set d k v) = map fst d"
  by (induction d) force+

text \<open>
  What a round of the loop of \<open>run_daily_multi_at\<close> does to the schedule map, when its wait
  ends: the item fired is an item of the map whose instant is the least of all pending
  instants; afterwards the fired label holds the instant that \<open>_next_at_with_jitter\<close> gives
  for the reference one day after the fired instant, which is at least one day and five
  seconds after the fired instant; every other label keeps its pending instant, and the labels
  of the map and their order stay as they were.
\<close>

lemma daily_multi_at_round_frame:
  assumes "min_item schedule_map = Some (next_t, next_at)"
    and "parse_hhmm_ext next_t = Inr (d, t)"
    and "wait_until next_at clock = Some (now, clock')"
  shows "(next_t, next_at) \<in> set schedule_map
     \<and> (\<forall>(k, v) \<in> set schedule_map. next_at \<le> v)
     \<and> (\<exists>v'. daily_multi_at_round jitter_min u clock schedule_map =
                Some (Inr ((next_t, next_at), dict_set schedule_map next_t v', clock'))
           \<and> next_at_with_jitter next_t jitter_min (next_at + days 1) u = Inr v'
           \<and> next_at + days 1 + seconds 5 \<le> v'
           \<and> map_of (dict_set schedule_map next_t v') next_t = Some v'
           \<and> (\<forall>k. k \<noteq> next_t \<longrightarrow>
                 map_of (dict_set schedule_map next_t v') k = map_of schedule_map k)
           \<and> map fst (dict_set schedule_map next_t v') = map fst schedule_map)"
proof -
  from min_item_Some[OF assms(1)]
  have sel: "(next_t, next_at) \<in> set schedule_map" "\<forall>(k, v) \<in> set schedule_map. next_at \<le> v"
    by simp_all
  from next_at_with_jitter_bounds[OF assms(2), of jitter_min "next_at + days 1" u]
  obtain v' where v': "next_at_with_jitter next_t jitter_min (next_at + days 1) u = Inr v'"
    "next_at + days 1 + seconds 5 \<le> v'" by blast
  have r: "daily_multi_at_round jitter_min u clock schedule_map =
                Some (Inr ((next_t, next_at), dict_set schedule_map next_t v', clock'))"
    by (simp add: daily_multi_at_round_def assms(1,3) v'(1))
  from sel(1) have "next_t \<in> fst ` set schedule_map" by force
  then have keys: "map fst (dict_set schedule_map next_t v') = map fst schedule_map"
    by (rule keys_dict_set)
  from sel v' r keys show ?thesis by (simp add: map_of_dict_set)
qed

lemma daily_multi_at_round_frame_example:
  "min_item ex_schedule_map = Some (''09:00'', seconds 32405)
   \<and> parse_hhmm_ext ''09:00'' = Inr (0, \<lparr>hour = 9, minute = 0\<rparr>)
   \<and> wait_until (seconds 32405) [seconds 32000, seconds 32406, seconds 32500] =
        Some (seconds 32406, [seconds 32500])
   \<and> daily_multi_at_round 30 7 [seconds 32000, seconds 32406, seconds 32500] ex_schedule_map =
        Some (Inr ((''09:00'', seconds 32405),
                   [(''12:00'', seconds 43200), (''09:00'', days 1 + seconds 32417),
                    (''26:00'', days 1 + seconds 7200)],
                   [seconds 32500]))
   \<and> (\<exists>v'. next_at_with_jitter ''09:00'' 30 (seconds 32405 + days 1) 7 = Inr v'
         \<and> seconds 32405 + days 1 + seconds 5 \<le> v'
         \<and> map_of (dict_set ex_schedule_map ''09:00'' v') ''12:00'' = map_of ex_schedule_map ''12:00'')"
proof -
  have 1: "min_item ex_schedule_map = Some (''09:00'', seconds 32405)"
    by (simp add: ex_schedule_map_def seconds_def days_def)
  have 2: "parse_hhmm_ext ''09:00'' = Inr (0, \<lparr>hour = 9, minute = 0\<rparr>)"
    by (simp add: parse_eval)
  have 3: "wait_until (seconds 32405) [seconds 32000, seconds 32406, seconds 32500] =
        Some (seconds 32406, [seconds 32500])"
    by (simp add: seconds_def)
  have 4: "daily_multi_at_round 30 7 [seconds 32000, seconds 32406, seconds 32500] ex_schedule_map =
        Some (Inr ((''09:00'', seconds 32405),
                   [(''12:00'', seconds 43200), (''09:00'', days 1 + seconds 32417),
                    (''26:00'', days 1 + seconds 7200)],
                   [seconds 32500]))"
    by (simp add: daily_multi_at_round_def 1 3 2 time_eval ex_schedule_map_def)
  from daily_multi_at_round_frame[OF 1 2 3, of 30 7]
  have 5: "\<exists>v'. next_at_with_jitter ''09:00'' 30 (seconds 32405 + days 1) 7 = Inr v'
         \<and> seconds 32405 + days 1 + seconds 5 \<le> v'
         \<and> map_of (dict_set ex_schedule_map ''09:00'' v') ''12:00'' = map_of ex_schedule_map ''12:00''"
    by fastforce
  from 1 2 3 4 5 show ?thesis by blast
qed

lemma parse_hhmm_range:
  assumes "parse_hhmm s = Inr t"
  shows "0 \<le> hour t \<and> hour t \<le> 23 \<and> 0 \<le> minute t \<and> minute t \<le> 59"
  using assms
  by (auto simp: parse_hhmm_def mk_dtime_def split: sum.splits prod.splits if_splits)

lemma date_of_bounds: "days (date_of now) \<le> now \<and> now < days (date_of now) + days 1"
proof -
  have "now div 86400000000 * 86400000000 = now - now mod 86400000000"
    by (simp add: minus_mod_eq_div_mult)
  moreover have "0 \<le> now mod 86400000000" "now mod 86400000000 < 86400000000" by simp_all
  ultimately show ?thesis by (simp add: days_def date_of_def)
qed

lemma window_draw:
  assumes "seconds 5 < fin - ws"
  shows "\<exists>offs. randint u 0 (max 0 (int_total_seconds (fin - ws))) = Inr offs
           \<and> ws \<le> ws + seconds offs \<and> ws + seconds offs \<le> fin"
proof -
  from assms have nn: "0 \<le> fin - ws" by (simp add: seconds_def)
  from int_total_seconds_nonneg[OF nn]
  have its: "0 \<le> int_total_seconds (fin - ws)" "seconds (int_total_seconds (fin - ws)) \<le> fin - ws"
    by simp_all
  from randint_range[of "max 0 (int_total_seconds (fin - ws))" u]
  obtain offs where offs: "randint u 0 (max 0 (int_total_seconds (fin - ws))) = Inr offs"
    "0 \<le> offs" "offs \<le> max 0 (int_total_seconds (fin - ws))" by auto
  from offs(3) its(1) have "offs \<le> int_total_seconds (fin - ws)" by simp
  from seconds_mono[OF this] its(2) have "seconds offs \<le> fin - ws" by simp
  with offs(1) seconds_nonneg[OF offs(2)] show ?thesis by auto
qed

text \<open>
  For a window whose start is before its end, the instant that \<open>_next_random_in_window\<close>
  returns lies in the window of today or of tomorrow, is at least 5 seconds after the clock
  reading, and lies in tomorrow's window when today's window end has passed.
\<close>

lemma next_random_in_window_proper:
  assumes sp: "py_split CHR ''-'' window_str = [start_s, end_s]"
    and ps: "parse_hhmm start_s = Inr t_start"
    and pe: "parse_hhmm end_s = Inr t_end"
    and lt: "combine 0 t_start < combine 0 t_end"
  shows "\<exists>r k. next_random_in_window window_str now u = Inr r
     \<and> combine k t_start \<le> r \<and> r \<le> combine k t_end
     \<and> now + seconds 5 \<le> r
     \<and> (k = date_of now \<or> k = date_of now + 1)
     \<and> (combine (date_of now) t_end \<le> now \<longrightarrow> k = date_of now + 1)"
proof -
  define a where "a = hour t_start * 60 + minute t_start"
  define b where "b = hour t_end * 60 + minute t_end"
  define S0 where "S0 = combine (date_of now) t_start"
  define E0 where "E0 = combine (date_of now) t_end"
  define T where "T = days (date_of now)"
  have cs: "combine k t_start = days k + a * 60000000" for k
    by (simp add: combine_def seconds_def a_def algebra_simps)
  have ce: "combine k t_end = days k + b * 60000000" for k
    by (simp add: combine_def seconds_def b_def algebra_simps)
  from parse_hhmm_range[OF ps] parse_hhmm_range[OF pe]
  have ab: "0 \<le> a" "a \<le> 1439" "0 \<le> b" "b \<le> 1439" by (simp_all add: a_def b_def)
  from lt have "a < b" by (simp add: cs ce days_def)
  then have ab1: "a + 1 \<le> b" by simp
  from date_of_bounds[of now] have T: "T \<le> now" "now < T + 86400000000"
    by (simp_all add: T_def days_def)
  have S0: "S0 = T + a * 60000000" and E0: "E0 = T + b * 60000000"
    by (simp_all add: S0_def E0_def cs ce T_def)
  have next_day: "combine (date_of now + 1) t_start = S0 + days 1"
    "combine (date_of now + 1) t_end = E0 + days 1"
    by (simp_all add: S0_def E0_def cs ce days_def algebra_simps)
  have SE: "\<not> E0 \<le> S0" using ab1 by (simp add: S0 E0)
  have unfold: "next_random_in_window window_str now u =
     (let (start_dt, end_dt) =
            (if E0 \<le> now \<or> E0 \<le> S0 then (S0 + days 1, E0 + days 1) else (S0, E0));
          win_start = max start_dt (now + seconds 5);
          (start_dt, end_dt, win_start) =
            (if end_dt - win_start \<le> seconds 5
             then (start_dt + days 1, end_dt + days 1, start_dt + days 1)
             else (start_dt, end_dt, win_start))
      in case randint u 0 (max 0 (int_total_seconds (end_dt - win_start))) of
           Inl e \<Rightarrow> Inl e
         | Inr offs \<Rightarrow> Inr (win_start + seconds offs))"
    by (simp add: next_random_in_window_def sp ps pe S0_def E0_def Let_def)
  show ?thesis
  proof (cases "E0 \<le> now")
    case True
    define ws where "ws = max (S0 + days 1) (now + seconds 5)"
    have gap: "seconds 5 < E0 + days 1 - ws"
      using T ab ab1 by (simp add: ws_def S0 E0 seconds_def days_def)
    then have c2: "\<not> E0 + days 1 - ws \<le> seconds 5" by simp
    from window_draw[OF gap, of u] obtain offs where
      offs: "randint u 0 (max 0 (int_total_seconds (E0 + days 1 - ws))) = Inr offs"
      "ws \<le> ws + seconds offs" "ws + seconds offs \<le> E0 + days 1" by blast
    have "next_random_in_window window_str now u = Inr (ws + seconds offs)"
      unfolding unfold using True c2 offs(1) by (simp add: Let_def ws_def[symmetric])
    moreover have "combine (date_of now + 1) t_start \<le> ws + seconds offs"
      using offs(2) by (simp add: next_day ws_def)
    moreover have "ws + seconds offs \<le> combine (date_of now + 1) t_end"
      using offs(3) by (simp add: next_day)
    moreover have "now + seconds 5 \<le> ws + seconds offs"
      using offs(2) by (simp add: ws_def)
    ultimately show ?thesis by blast
  next
    case False
    then have c1: "\<not> (E0 \<le> now \<or> E0 \<le> S0)" using SE by simp
    from False have today: "\<not> combine (date_of now) t_end \<le> now" by (simp add: E0_def)
    define ws where "ws = max S0 (now + seconds 5)"
    show ?thesis
    proof (cases "E0 - ws \<le> seconds 5")
      case shift: True
      have gap: "seconds 5 < E0 + days 1 - (S0 + days 1)"
        using ab1 by (simp add: S0 E0 seconds_def)
      from window_draw[OF gap, of u] obtain offs where
        offs: "randint u 0 (max 0 (int_total_seconds (E0 + days 1 - (S0 + days 1)))) = Inr offs"
        "S0 + days 1 \<le> S0 + days 1 + seconds offs" "S0 + days 1 + seconds offs \<le> E0 + days 1"
        by blast
      have "next_random_in_window window_str now u = Inr (S0 + days 1 + seconds offs)"
        unfolding unfold using c1 shift offs(1) by (simp add: Let_def ws_def[symmetric])
      moreover have "combine (date_of now + 1) t_start \<le> S0 + days 1 + seconds offs"
        using offs(2) by (simp add: next_day)
      moreover have "S0 + days 1 + seconds offs \<le> combine (date_of now + 1) t_end"
        using offs(3) by (simp add: next_day)
      moreover have "now + seconds 5 \<le> S0 + days 1 + seconds offs"
        using offs(2) False ab by (simp add: S0 E0 seconds_def days_def)
      ultimately show ?thesis using today by blast
    next
      case stay: False
      then have gap: "seconds 5 < E0 - ws" by simp
      from window_draw[OF gap, of u] obtain offs where
        offs: "randint u 0 (max 0 (int_total_seconds (E0 - ws))) = Inr offs"
        "ws \<le> ws + seconds offs" "ws + seconds offs \<le> E0" by blast
      have "next_random_in_window window_str now u = Inr (ws + seconds offs)"
        unfolding unfold using c1 stay offs(1) by (simp add: Let_def ws_def[symmetric])
      moreover have "combine (date_of now) t_start \<le> ws + seconds offs"
        using offs(2) by (simp add: S0_def[symmetric] ws_def)
      moreover have "ws + seconds offs \<le> combine (date_of now) t_end"
        using offs(3) by (simp add: E0_def[symmetric])
      moreover have "now + seconds 5 \<le> ws + seconds offs"
        using offs(2) by (simp add: ws_def)
      ultimately show ?thesis using today by blast
    qed
  qed
qed

lemma parse_window_eval:
  "py_split CHR ''-'' ''22:00-02:00'' = [''22:00'', ''02:00'']"
  "py_split CHR ''-'' ''10:00-10:00'' = [''10:00'', ''10:00'']"
  "py_split CHR ''-'' ''09:00-17:00'' = [''09:00'', ''17:00'']"
  "parse_hhmm ''22:00'' = Inr \<lparr>hour = 22, minute = 0\<rparr>"
  "parse_hhmm ''02:00'' = Inr \<lparr>hour = 2, minute = 0\<rparr>"
  "parse_hhmm ''10:00'' = Inr \<lparr>hour = 10, minute = 0\<rparr>"
  "parse_hhmm ''09:00'' = Inr \<lparr>hour = 9, minute = 0\<rparr>"
  "parse_hhmm ''17:00'' = Inr \<lparr>hour = 17, minute = 0\<rparr>"
  by (simp_all add: parse_eval)

text \<open>
  C5. The daily-window policy is to return an instant inside the window of some day, at least
  5 seconds after the clock reading, and in the next day's window when today's window end has
  passed or the window end is not after the window start. For a window whose end is not after
  its start the code shifts the window twice: at noon of day 0 the window 22:00-02:00 gives
  22:00 of day 2, whatever the draw, and at 09:00 of day 0 the window 10:00-10:00 gives 10:00
  of day 2. Neither instant is in the window of day 1.
\<close>

theorem window_not_after_start_lands_two_days_on:
  "next_random_in_window ''22:00-02:00'' (seconds 43200) u = Inr (days 2 + seconds 79200)
   \<and> next_random_in_window ''10:00-10:00'' (seconds 32400) u = Inr (days 2 + seconds 36000)"
  by (simp add: next_random_in_window_def parse_window_eval combine_def date_of_def days_def
      seconds_def int_total_seconds_def randint_def)

text \<open>
  C6. After a firing the loop of \<open>run_daily_window\<close> is to wait for an instant in the
  following day's window. The instant it computes for that is assigned again at the head of
  the next round from the clock alone: for the window 09:00-17:00 and a clock that starts at
  10:00:00 of day 0, the first two firings wait for 10:00:05 and 10:00:12 of day 0, both in
  the window of day 0.
\<close>

theorem daily_window_fires_twice_in_one_window:
  "run_daily_window 2 ''09:00-17:00''
     [seconds 36000, seconds 36005, seconds 36007, seconds 36007, seconds 36012, seconds 36013]
     [0, 0, 0, 0]
   = [(seconds 36005, seconds 36005), (seconds 36012, seconds 36012)]
   \<and> combine 0 \<lparr>hour = 9, minute = 0\<rparr> \<le> seconds 36005
   \<and> seconds 36012 \<le> combine 0 \<lparr>hour = 17, minute = 0\<rparr>"
  by (simp add: numeral_2_eq_2 next_random_in_window_def parse_window_eval combine_def date_of_def
      days_def seconds_def int_total_seconds_def randint_def)

lemma parse_26: "parse_hhmm_ext ''26:00'' = Inr (1, \<lparr>hour = 2, minute = 0\<rparr>)"
  by (simp add: parse_eval)

lemma parse_09: "parse_hhmm_ext ''09:00'' = Inr (0, \<lparr>hour = 9, minute = 0\<rparr>)"
  by (simp add: parse_eval)

text \<open>
  C9. A round of the loop of \<open>run_daily_multi_at\<close> is to fire the label with the least pending
  instant and then to move that label, and no other, to an instant of the next day. The round
  does select the least instant and does change the fired label only (lemma
  \<open>daily_multi_at_round_frame\<close>), but the new instant can skip the next day. With the label
  26:00 and 30 minutes of jitter, a firing at 02:00:00 of day 1 puts the label between 01:30
  and 02:30 of day 3, whatever the draw. With the label 09:00 and no jitter, a firing at
  09:00:30 of day 0 puts the label between 09:00:00 and 09:01:00 of day 2.
\<close>

theorem fired_label_skips_the_next_day:
  "daily_multi_at_round 30 u [days 1 + seconds 7200] [(''26:00'', days 1 + seconds 7200)] =
     Some (Inr ((''26:00'', days 1 + seconds 7200),
                [(''26:00'', days 3 + seconds 5400 + seconds (int u mod 3601))], []))
   \<and> daily_multi_at_round 0 u [seconds 32430] [(''09:00'', seconds 32430)] =
     Some (Inr ((''09:00'', seconds 32430),
                [(''09:00'', days 2 + seconds 32400 + seconds (int u mod 61))], []))"
  by (simp add: daily_multi_at_round_def parse_26 parse_09 time_eval)

end
